theory Spec2Isabelle
  imports Complex_Main "HOL-Library.Sublist"
begin

section \<open>Timeline data model (frontend/src/context/EditorContext.tsx)\<close>

text \<open>
  Strings are \<open>string\<close>. An optional field (\<open>muted?\<close>) and a nullable field
  (\<open>string | null\<close>) are options. Objects are values: the reducer works on immer
  drafts and on \<open>JSON.parse(JSON.stringify(...))\<close> copies, so no two parts of a state
  alias each other and a deep copy is the identity on values.
\<close>

subsection \<open>JavaScript numbers\<close>

text \<open>
  A JavaScript number is an IEEE 754 binary64 value. The model keeps the finite ones,
  each as the real number it denotes. Comparisons, \<open>Math.max\<close>, \<open>Math.min\<close> and
  \<open>Math.floor\<close> are exact on them; every \<open>+\<close>, \<open>-\<close>, \<open>*\<close> and \<open>/\<close> of the source
  is the exact operation followed by \<open>toDouble\<close>, the rounding to the nearest double,
  ties to the even significand, with gradual underflow below \<open>2^-1022\<close>. A decimal
  literal of the source or of a request (\<open>0.1\<close>, \<open>0.8\<close>) is the double \<open>toDouble\<close>
  gives for it. Not modelled: NaN, the infinities, the sign of zero, and overflow (the
  model is the program as long as every result is below \<open>2^1024\<close> in magnitude).
\<close>

text \<open>Rounding to the nearest integer, ties to even.\<close>

definition roundTiesToEven :: "real \<Rightarrow> int" where
  "roundTiesToEven q =
     (let n = \<lfloor>q\<rfloor>; r = q - of_int n
      in if r < 1 / 2 then n else if 1 / 2 < r then n + 1 else if even n then n else n + 1)"

text \<open>
  The binary exponent of \<open>a > 0\<close>: the \<open>e\<close> with \<open>2^e \<le> a < 2^(e+1)\<close>, found by halving
  (at most 1024 times) or doubling (at most 1022 times, which stops at \<open>-1022\<close>, the
  exponent all subnormal numbers share).
\<close>

fun exponentUp :: "nat \<Rightarrow> real \<Rightarrow> int" where
  "exponentUp 0 a = 0"
| "exponentUp (Suc fuel) a = (if a < 2 then 0 else 1 + exponentUp fuel (a / 2))"

fun exponentDown :: "nat \<Rightarrow> real \<Rightarrow> int" where
  "exponentDown 0 a = 0"
| "exponentDown (Suc fuel) a = (if 1 \<le> a then 0 else exponentDown fuel (a * 2) - 1)"

definition binaryExponent :: "real \<Rightarrow> int" where
  "binaryExponent a = (if 1 \<le> a then exponentUp 1024 a else exponentDown 1022 a)"

definition pow2 :: "int \<Rightarrow> real" where
  "pow2 k = (if 0 \<le> k then 2 ^ nat k else 1 / 2 ^ nat (- k))"

text \<open>
  The double nearest to \<open>x\<close>: 53 significant bits, so the unit in the last place is
  \<open>2^(e - 52)\<close>.
\<close>

definition toDouble :: "real \<Rightarrow> real" where
  "toDouble x =
     (if x = 0 then 0
      else (let a = \<bar>x\<bar>; ulp = pow2 (binaryExponent a - 52)
            in sgn x * (of_int (roundTiesToEven (a / ulp)) * ulp)))"

subsection \<open>Timeline\<close>

datatype ClipType = Video | Audio

datatype TrackType = VideoTrack | AudioTrack | SubtitleTrack

record TimelineClip =
  clip_id :: string
  clip_sourceId :: string
  clip_sourceUrl :: string
  clip_startTime :: real
  clip_duration :: real
  clip_trimStart :: real
  clip_trimEnd :: real
  clip_type :: ClipType

record TimelineTrack =
  track_id :: string
  track_name :: string
  track_type :: TrackType
  track_clips :: "TimelineClip list"
  track_muted :: "bool option"
  track_volume :: "real option"
  track_locked :: "bool option"
  track_visible :: "bool option"

datatype SubtitlePosition = Top | Center | Bottom

record SubtitleStyle =
  style_preset :: string
  style_fontSize :: real
  style_color :: string
  style_backgroundColor :: string
  style_position :: SubtitlePosition

record SubtitleItem =
  sub_id :: string
  sub_text :: string
  sub_startTime :: real
  sub_endTime :: real
  sub_style :: SubtitleStyle

text \<open>\<open>Partial<SubtitleItem>\<close>: every key may be absent.\<close>

record SubtitleUpdates =
  upd_id :: "string option"
  upd_text :: "string option"
  upd_startTime :: "real option"
  upd_endTime :: "real option"
  upd_style :: "SubtitleStyle option"

record EditorSnapshot =
  snap_tracks :: "TimelineTrack list"
  snap_subtitles :: "SubtitleItem list"

record History =
  past :: "EditorSnapshot list"
  future :: "EditorSnapshot list"

record EditorState =
  tracks :: "TimelineTrack list"
  subtitles :: "SubtitleItem list"
  playhead :: real
  duration :: real
  zoom :: real
  isPlaying :: bool
  selectedClipId :: "string option"
  selectedSubtitleId :: "string option"
  clipboard :: "TimelineClip option"
  history :: History
  exportProgress :: "real option"
  previewUrl :: "string option"

datatype EditorAction =
    SET_TRACKS "TimelineTrack list"
  | ADD_CLIP string TimelineClip
  | REMOVE_CLIP string
  | MOVE_CLIP string real "string option"
  | TRIM_CLIP string real real
  | SPLIT_CLIP string real
  | SELECT_CLIP "string option"
  | COPY_CLIP string
  | PASTE_CLIP string real
  | ADD_TRACK TimelineTrack
  | REMOVE_TRACK string
  | TOGGLE_TRACK_MUTE string
  | TOGGLE_TRACK_LOCK string
  | TOGGLE_TRACK_VISIBILITY string
  | SET_TRACK_VOLUME string real
  | LOAD_PROJECT_DATA "TimelineTrack list" "SubtitleItem list"
  | ADD_SUBTITLE SubtitleItem
  | UPDATE_SUBTITLE string SubtitleUpdates
  | REMOVE_SUBTITLE string
  | SELECT_SUBTITLE "string option"
  | SET_PLAYHEAD real
  | SET_PLAYING bool
  | SET_ZOOM real
  | UNDO
  | REDO
  | SET_EXPORT_PROGRESS "real option"
  | SET_PREVIEW_URL "string option"
  | RESET

definition initialState :: EditorState where
  "initialState =
     \<lparr> tracks =
         [ \<lparr> track_id = ''video-track-1'', track_name = ''Video 1'', track_type = VideoTrack,
             track_clips = [], track_muted = None, track_volume = None,
             track_locked = Some False, track_visible = Some True \<rparr>,
           \<lparr> track_id = ''audio-track-1'', track_name = ''Audio 1'', track_type = AudioTrack,
             track_clips = [], track_muted = None, track_volume = Some 1,
             track_locked = Some False, track_visible = Some True \<rparr> ],
       subtitles = [],
       playhead = 0,
       duration = 0,
       zoom = 1,
       isPlaying = False,
       selectedClipId = None,
       selectedSubtitleId = None,
       clipboard = None,
       history = \<lparr> past = [], future = [] \<rparr>,
       exportProgress = None,
       previewUrl = None \<rparr>"

subsection \<open>Helpers\<close>

text \<open>The snapshot \<open>{tracks, subtitles}\<close> that \<open>saveToHistory\<close>, UNDO and REDO copy.\<close>

definition snapshot :: "EditorState \<Rightarrow> EditorSnapshot" where
  "snapshot state = \<lparr> snap_tracks = tracks state, snap_subtitles = subtitles state \<rparr>"

text \<open>
  \<open>saveToHistory\<close>: push the snapshot, empty \<open>future\<close>, and drop the oldest entry
  (\<open>shift\<close>) when more than 50 are held.
\<close>

definition saveToHistory :: "EditorState \<Rightarrow> EditorState" where
  "saveToHistory state =
     (let pushed = past (history state) @ [snapshot state]
      in state \<lparr> history :=
           \<lparr> past = (if length pushed > 50 then tl pushed else pushed), future = [] \<rparr> \<rparr>)"

text \<open>\<open>calculateDuration\<close>: the two nested \<open>forEach\<close> loops over one accumulator.\<close>

definition clipMax :: "TimelineClip \<Rightarrow> real \<Rightarrow> real" where
  "clipMax clip maxEnd =
     (let clipEnd = toDouble (clip_startTime clip + clip_duration clip)
      in if clipEnd > maxEnd then clipEnd else maxEnd)"

definition calculateDuration :: "TimelineTrack list \<Rightarrow> real" where
  "calculateDuration ts = fold (\<lambda>track maxEnd. fold clipMax (track_clips track) maxEnd) ts 0"

text \<open>\<open>Array.prototype.findIndex\<close>; \<open>None\<close> stands for \<open>-1\<close>.\<close>

fun findIndex :: "('a \<Rightarrow> bool) \<Rightarrow> 'a list \<Rightarrow> nat option" where
  "findIndex p [] = None"
| "findIndex p (x # xs) = (if p x then Some 0 else map_option Suc (findIndex p xs))"

text \<open>
  \<open>findClip\<close>: the first track, in array order, holding a clip with the id. The source
  returns references \<open>{track, clip, index}\<close> into the draft; the model returns the
  position of the track and the index of the clip, from which both are read.
\<close>

fun findClip :: "TimelineTrack list \<Rightarrow> string \<Rightarrow> (nat \<times> nat) option" where
  "findClip [] clipId = None"
| "findClip (track # rest) clipId =
     (case findIndex (\<lambda>c. clip_id c = clipId) (track_clips track) of
        Some index \<Rightarrow> Some (0, index)
      | None \<Rightarrow> map_option (\<lambda>(ti, index). (Suc ti, index)) (findClip rest clipId))"

text \<open>\<open>clips.splice(index, 1)\<close> and \<open>clips.splice(index, 0, c)\<close>.\<close>

definition spliceOut :: "nat \<Rightarrow> 'a list \<Rightarrow> 'a list" where
  "spliceOut index xs = take index xs @ drop (Suc index) xs"

definition spliceIn :: "nat \<Rightarrow> 'a \<Rightarrow> 'a list \<Rightarrow> 'a list" where
  "spliceIn index x xs = take index xs @ [x] @ drop index xs"

text \<open>
  \<open>clips.sort((a, b) => a.startTime - b.startTime)\<close>: a stable sort by start time
  (\<open>sort_key\<close> is insertion sort, stable as the JavaScript sort is; the rounded
  difference of two doubles has the sign of the exact one).
\<close>

definition sortClips :: "TimelineClip list \<Rightarrow> TimelineClip list" where
  "sortClips cs = sort_key clip_startTime cs"

definition sortSubtitles :: "SubtitleItem list \<Rightarrow> SubtitleItem list" where
  "sortSubtitles ss = sort_key sub_startTime ss"

text \<open>The REMOVE\_CLIP loop: splice the clip out of the first track that has it, then break.\<close>

fun removeClipLoop :: "TimelineTrack list \<Rightarrow> string \<Rightarrow> TimelineTrack list" where
  "removeClipLoop [] clipId = []"
| "removeClipLoop (track # rest) clipId =
     (case findIndex (\<lambda>c. clip_id c = clipId) (track_clips track) of
        Some index \<Rightarrow> track \<lparr> track_clips := spliceOut index (track_clips track) \<rparr> # rest
      | None \<Rightarrow> track # removeClipLoop rest clipId)"

text \<open>\<open>draft.tracks.find(p)\<close> followed by a mutation \<open>f\<close> of the track found, if any.\<close>

definition withTrack ::
  "string \<Rightarrow> (TimelineTrack \<Rightarrow> TimelineTrack) \<Rightarrow> TimelineTrack list \<Rightarrow> TimelineTrack list" where
  "withTrack trackId f ts =
     (case findIndex (\<lambda>t. track_id t = trackId) ts of
        None \<Rightarrow> ts
      | Some i \<Rightarrow> ts[i := f (ts ! i)])"

text \<open>\<open>!x\<close> on an optional boolean: \<open>undefined\<close> is falsy.\<close>

definition jsNot :: "bool option \<Rightarrow> bool option" where
  "jsNot b = Some (\<not> (case b of None \<Rightarrow> False | Some v \<Rightarrow> v))"

text \<open>\<open>{ ...subtitle, ...updates }\<close>.\<close>

definition applyUpdates :: "SubtitleItem \<Rightarrow> SubtitleUpdates \<Rightarrow> SubtitleItem" where
  "applyUpdates s u =
     \<lparr> sub_id = (case upd_id u of None \<Rightarrow> sub_id s | Some v \<Rightarrow> v),
       sub_text = (case upd_text u of None \<Rightarrow> sub_text s | Some v \<Rightarrow> v),
       sub_startTime = (case upd_startTime u of None \<Rightarrow> sub_startTime s | Some v \<Rightarrow> v),
       sub_endTime = (case upd_endTime u of None \<Rightarrow> sub_endTime s | Some v \<Rightarrow> v),
       sub_style = (case upd_style u of None \<Rightarrow> sub_style s | Some v \<Rightarrow> v) \<rparr>"


subsection \<open>The reducer\<close>

text \<open>
  \<open>editorReducer\<close>, one equation per \<open>case\<close> of the \<open>switch\<close>. The first argument is
  the value that \<open>uuidv4()\<close> returns during the call (SPLIT\_CLIP and PASTE\_CLIP draw one
  id; the other cases draw none). A \<open>return\<close> inside a \<open>produce\<close> callback leaves the
  draft as it is at that point, that is, the state that \<open>saveToHistory\<close> returned.
\<close>

fun editorReducer :: "string \<Rightarrow> EditorState \<Rightarrow> EditorAction \<Rightarrow> EditorState" where
  "editorReducer uuid state (SET_TRACKS ts) =
     state \<lparr> tracks := ts, duration := calculateDuration ts \<rparr>"
| "editorReducer uuid state (ADD_CLIP trackId clip) =
     (let newState = saveToHistory state
      in case findIndex (\<lambda>t. track_id t = trackId) (tracks newState) of
           None \<Rightarrow> newState
         | Some i \<Rightarrow>
             (let track = tracks newState ! i;
                  ts = (tracks newState)
                         [i := track \<lparr> track_clips := sortClips (track_clips track @ [clip]) \<rparr>]
              in newState \<lparr> tracks := ts, duration := calculateDuration ts \<rparr>))"
| "editorReducer uuid state (REMOVE_CLIP clipId) =
     (let newState = saveToHistory state;
          ts = removeClipLoop (tracks newState) clipId
      in newState
           \<lparr> tracks := ts,
             selectedClipId :=
               (if selectedClipId newState = Some clipId then None else selectedClipId newState),
             duration := calculateDuration ts \<rparr>)"
| "editorReducer uuid state (MOVE_CLIP clipId newStartTime newTrackId) =
     (let newState = saveToHistory state
      in case findClip (tracks newState) clipId of
           None \<Rightarrow> newState
         | Some (si, index) \<Rightarrow>
             (let sourceTrack = tracks newState ! si;
                  clip = track_clips sourceTrack ! index;
                  moved = clip \<lparr> clip_startTime := max 0 newStartTime \<rparr>;
                  ts =
                    (if (case newTrackId of None \<Rightarrow> False
                         | Some n \<Rightarrow> n \<noteq> [] \<and> n \<noteq> track_id sourceTrack)
                     then
                       (case findIndex (\<lambda>t. track_id t = the newTrackId) (tracks newState) of
                          None \<Rightarrow> tracks newState
                        | Some ti \<Rightarrow>
                            (let targetTrack = tracks newState ! ti
                             in if track_type targetTrack = track_type sourceTrack
                                then (tracks newState)
                                       [si := sourceTrack
                                          \<lparr> track_clips := spliceOut index (track_clips sourceTrack) \<rparr>,
                                        ti := targetTrack
                                          \<lparr> track_clips :=
                                              sortClips (track_clips targetTrack @ [moved]) \<rparr>]
                                else tracks newState))
                     else
                       (tracks newState)
                         [si := sourceTrack
                            \<lparr> track_clips := sortClips ((track_clips sourceTrack)[index := moved]) \<rparr>])
              in newState \<lparr> tracks := ts, duration := calculateDuration ts \<rparr>))"
| "editorReducer uuid state (TRIM_CLIP clipId trimStart trimEnd) =
     (let newState = saveToHistory state
      in case findClip (tracks newState) clipId of
           None \<Rightarrow> newState
         | Some (si, index) \<Rightarrow>
             (let track = tracks newState ! si;
                  clip = track_clips track ! index;
                  trimmed = clip \<lparr> clip_trimStart := trimStart, clip_trimEnd := trimEnd,
                                  clip_duration :=
                                    toDouble (toDouble (clip_duration clip - trimStart) - trimEnd) \<rparr>;
                  ts = (tracks newState)
                         [si := track \<lparr> track_clips := (track_clips track)[index := trimmed] \<rparr>]
              in newState \<lparr> tracks := ts, duration := calculateDuration ts \<rparr>))"
| "editorReducer uuid state (SPLIT_CLIP clipId absSplitPoint) =
     (let newState = saveToHistory state
      in case findClip (tracks newState) clipId of
           None \<Rightarrow> newState
         | Some (si, index) \<Rightarrow>
             (let track = tracks newState ! si;
                  clip = track_clips track ! index;
                  splitPoint = toDouble (absSplitPoint - clip_startTime clip)
              in if splitPoint \<le> 0 \<or> splitPoint \<ge> clip_duration clip then newState
                 else
                   (let secondClip = clip \<lparr> clip_id := uuid,
                                            clip_startTime := absSplitPoint,
                                            clip_duration :=
                                              toDouble (clip_duration clip - splitPoint),
                                            clip_trimStart :=
                                              toDouble (clip_trimStart clip + splitPoint) \<rparr>;
                        clip1 = clip \<lparr> clip_duration := splitPoint \<rparr>;
                        clip2 = clip1 \<lparr> clip_trimEnd :=
                                         toDouble (clip_trimEnd clip1
                                           + toDouble (clip_duration clip1 - splitPoint)) \<rparr>
                    in newState
                         \<lparr> tracks := (tracks newState)
                             [si := track
                                \<lparr> track_clips :=
                                    spliceIn (index + 1) secondClip
                                      ((track_clips track)[index := clip2]) \<rparr>] \<rparr>)))"
| "editorReducer uuid state (SELECT_CLIP clipId) =
     state \<lparr> selectedClipId := clipId, selectedSubtitleId := None \<rparr>"
| "editorReducer uuid state (COPY_CLIP clipId) =
     (case findClip (tracks state) clipId of
        None \<Rightarrow> state
      | Some (si, index) \<Rightarrow>
          state \<lparr> clipboard := Some (track_clips (tracks state ! si) ! index) \<rparr>)"
| "editorReducer uuid state (PASTE_CLIP trackId startTime) =
     (case clipboard state of
        None \<Rightarrow> state
      | Some copied \<Rightarrow>
          (let newState = saveToHistory state
           in case findIndex (\<lambda>t. track_id t = trackId) (tracks newState) of
                None \<Rightarrow> newState
              | Some i \<Rightarrow>
                  (let track = tracks newState ! i;
                       newClip = copied \<lparr> clip_id := uuid, clip_startTime := startTime \<rparr>;
                       ts = (tracks newState)
                              [i := track
                                 \<lparr> track_clips := sortClips (track_clips track @ [newClip]) \<rparr>]
                   in newState \<lparr> tracks := ts, duration := calculateDuration ts \<rparr>)))"
| "editorReducer uuid state (ADD_TRACK track) =
     (let newState = saveToHistory state
      in newState \<lparr> tracks := tracks newState @ [track] \<rparr>)"
| "editorReducer uuid state (REMOVE_TRACK trackId) =
     (let newState = saveToHistory state
      in newState \<lparr> tracks := filter (\<lambda>t. track_id t \<noteq> trackId) (tracks newState) \<rparr>)"
| "editorReducer uuid state (TOGGLE_TRACK_MUTE trackId) =
     state \<lparr> tracks :=
       withTrack trackId (\<lambda>t. t \<lparr> track_muted := jsNot (track_muted t) \<rparr>) (tracks state) \<rparr>"
| "editorReducer uuid state (SET_TRACK_VOLUME trackId volume) =
     state \<lparr> tracks :=
       withTrack trackId (\<lambda>t. t \<lparr> track_volume := Some volume \<rparr>) (tracks state) \<rparr>"
| "editorReducer uuid state (TOGGLE_TRACK_LOCK trackId) =
     state \<lparr> tracks :=
       withTrack trackId (\<lambda>t. t \<lparr> track_locked := jsNot (track_locked t) \<rparr>) (tracks state) \<rparr>"
| "editorReducer uuid state (TOGGLE_TRACK_VISIBILITY trackId) =
     state \<lparr> tracks :=
       withTrack trackId (\<lambda>t. t \<lparr> track_visible := jsNot (track_visible t) \<rparr>) (tracks state) \<rparr>"
| "editorReducer uuid state (LOAD_PROJECT_DATA dataTracks dataSubtitles) =
     (let ts = (if length dataTracks > 0 then dataTracks else tracks state)
      in state \<lparr> tracks := ts, subtitles := dataSubtitles,
                  duration := calculateDuration ts,
                  history := \<lparr> past = [], future = [] \<rparr> \<rparr>)"
| "editorReducer uuid state (ADD_SUBTITLE subtitle) =
     (let newState = saveToHistory state
      in newState \<lparr> subtitles := sortSubtitles (subtitles newState @ [subtitle]) \<rparr>)"
| "editorReducer uuid state (UPDATE_SUBTITLE subtitleId updates) =
     (let newState = saveToHistory state
      in case findIndex (\<lambda>s. sub_id s = subtitleId) (subtitles newState) of
           None \<Rightarrow> newState
         | Some index \<Rightarrow>
             newState \<lparr> subtitles := (subtitles newState)
                          [index := applyUpdates (subtitles newState ! index) updates] \<rparr>)"
| "editorReducer uuid state (REMOVE_SUBTITLE subtitleId) =
     (let newState = saveToHistory state
      in newState
           \<lparr> subtitles := filter (\<lambda>s. sub_id s \<noteq> subtitleId) (subtitles newState),
             selectedSubtitleId :=
               (if selectedSubtitleId newState = Some subtitleId then None
                else selectedSubtitleId newState) \<rparr>)"
| "editorReducer uuid state (SELECT_SUBTITLE subtitleId) =
     state \<lparr> selectedSubtitleId := subtitleId, selectedClipId := None \<rparr>"
| "editorReducer uuid state (SET_PLAYHEAD time) =
     state \<lparr> playhead := max 0 (min time (duration state)) \<rparr>"
| "editorReducer uuid state (SET_PLAYING playing) = state \<lparr> isPlaying := playing \<rparr>"
| "editorReducer uuid state (SET_ZOOM z) =
     state \<lparr> zoom := max (toDouble (1 / 10)) (min 10 z) \<rparr>"
| "editorReducer uuid state UNDO =
     (if past (history state) = [] then state
      else
        (let previous = last (past (history state))
         in state
              \<lparr> history := \<lparr> past = butlast (past (history state)),
                             future = snapshot state # future (history state) \<rparr>,
                tracks := snap_tracks previous,
                subtitles := snap_subtitles previous,
                duration := calculateDuration (snap_tracks previous) \<rparr>))"
| "editorReducer uuid state REDO =
     (if future (history state) = [] then state
      else
        (let next = hd (future (history state))
         in state
              \<lparr> history := \<lparr> past = past (history state) @ [snapshot state],
                             future = tl (future (history state)) \<rparr>,
                tracks := snap_tracks next,
                subtitles := snap_subtitles next,
                duration := calculateDuration (snap_tracks next) \<rparr>))"
| "editorReducer uuid state (SET_EXPORT_PROGRESS progress) =
     state \<lparr> exportProgress := progress \<rparr>"
| "editorReducer uuid state (SET_PREVIEW_URL url) = state \<lparr> previewUrl := url \<rparr>"
| "editorReducer uuid state RESET = initialState"

text \<open>
  A session: \<open>useReducer(editorReducer, initialState)\<close> applies the dispatched actions
  in order. Each step carries the id that \<open>uuidv4()\<close> yields during it.
\<close>

fun dispatchAll :: "EditorState \<Rightarrow> (string \<times> EditorAction) list \<Rightarrow> EditorState" where
  "dispatchAll state [] = state"
| "dispatchAll state ((uuid, action) # rest) = dispatchAll (editorReducer uuid state action) rest"


section \<open>Export route (backend/src/routes/uploads.routes.ts)\<close>

text \<open>
  The handler of \<open>POST /:projectId/export\<close>, from the mock-mode guard to the end of its
  \<open>try\<close>/\<open>catch\<close>. The request body has passed \<open>exportVideoSchema\<close>. What the outside
  world decides (whether a download, a write, an FFmpeg run, the upload or the Firestore
  update throws, and whether an \<open>unlink\<close> succeeds) is a parameter of the model, the
  record \<open>World\<close>. The handler's own effects are kept in \<open>Sys\<close>: the scratch files
  present in \<open>workDir\<close> and the events emitted to the project's socket room, in order.
\<close>

record ExportClip =
  ec_lineId :: string
  ec_videoUrl :: string
  ec_audioUrl :: "string option"
  ec_startTime :: real
  ec_duration :: real
  ec_trimStart :: real
  ec_trimEnd :: real

datatype SubtitleWord = SubtitleWord string real real

datatype ExportStyle = ExportStyle string string string

record ExportSubtitles =
  es_enabled :: bool
  es_style :: "ExportStyle option"
  es_words :: "SubtitleWord list option"

record ExportData =
  ed_clips :: "ExportClip list"
  ed_subtitles :: "ExportSubtitles option"
  ed_audioMix :: real

text \<open>
  The schema's constraint on \<open>audioMix\<close>: \<open>z.number().min(0).max(1)\<close>.
\<close>

definition exportVideoSchema :: "ExportData \<Rightarrow> bool" where
  "exportVideoSchema exportData \<longleftrightarrow> 0 \<le> ed_audioMix exportData \<and> ed_audioMix exportData \<le> 1"

text \<open>
  The files of \<open>workDir\<close>, by name: \<open>video_i.mp4\<close>, \<open>voiceover_i.mp3\<close>,
  \<open>processed_i.mp4\<close>, \<open>subtitles.srt\<close>, \<open>concat.txt\<close>, \<open>concat_output.mp4\<close> and
  \<open>output.mp4\<close>.
\<close>

datatype ScratchFile =
    VideoFile nat
  | VoiceoverFile nat
  | ProcessedFile nat
  | SubtitlesSrt
  | ConcatTxt
  | ConcatOutputMp4
  | OutputMp4

text \<open>
  The five argument lists handed to \<open>runFFmpeg\<close>, each by the values it is built from
  (the fixed codec options are the same in every run and are left out):
  the mix of a clip with its voiceover (\<open>-ss trimStart -i videoPath -i audioPath -t
  effectiveDuration\<close>, the two \<open>volume=\<close> gains of the filter, the output), the plain
  trim, the concatenation (list file, output), the subtitle burn (input, subtitle file,
  font colour, output) and the final copy (input, output).
\<close>

datatype FFmpegArgs =
    MixArgs real ScratchFile ScratchFile real real real ScratchFile
  | TrimArgs real ScratchFile real ScratchFile
  | ConcatArgs ScratchFile ScratchFile
  | SubtitleArgs ScratchFile ScratchFile string ScratchFile
  | CopyArgs ScratchFile ScratchFile

fun outputOf :: "FFmpegArgs \<Rightarrow> ScratchFile" where
  "outputOf (MixArgs ss v a t cv vv out) = out"
| "outputOf (TrimArgs ss v t out) = out"
| "outputOf (ConcatArgs l out) = out"
| "outputOf (SubtitleArgs i srt colour out) = out"
| "outputOf (CopyArgs i out) = out"

text \<open>
  \<open>emit('export:progress', {progress, status})\<close>, \<open>emit('export:completed', {exportId,
  url})\<close> and \<open>emit('export:failed', {error})\<close>.
\<close>

datatype Event =
    ExportProgress int string
  | ExportCompleted string string
  | ExportFailed string

text \<open>
  What the handler answers: \<open>sendSuccess\<close> with export id, url, status and the
  \<open>isMock\<close> flag, \<open>sendError\<close> with message and status code, or an error that leaves
  the handler (thrown outside the \<open>try\<close>).
\<close>

datatype Response =
    SendSuccess string string string bool
  | SendError string nat
  | Thrown string

record World =
  mkdirError :: "string option"
  fetchError :: "string \<Rightarrow> string option"
  writeFileError :: "ScratchFile \<Rightarrow> string option"
  ffmpegError :: "FFmpegArgs \<Rightarrow> string option"
  uploadError :: "string option"
  getSignedUrl :: "string + string"
  dbUpdateError :: "string option"
  unlinkOk :: "ScratchFile \<Rightarrow> bool"

record Sys =
  files :: "ScratchFile list"
  emitted :: "Event list"

text \<open>
  An awaited step either throws (the message of the error, \<open>Inl\<close>) or resolves
  (\<open>Inr\<close>); either way it leaves a state behind.
\<close>

type_synonym 'a Outcome = "(string + 'a) \<times> Sys"

definition emit :: "Event \<Rightarrow> Sys \<Rightarrow> Sys" where
  "emit e st = st \<lparr> emitted := emitted st @ [e] \<rparr>"

definition createFile :: "ScratchFile \<Rightarrow> Sys \<Rightarrow> Sys" where
  "createFile f st = st \<lparr> files := List.insert f (files st) \<rparr>"

text \<open>\<open>await unlink(path).catch(() => {})\<close>: a failure is swallowed and the file stays.\<close>

definition unlink :: "World \<Rightarrow> ScratchFile \<Rightarrow> Sys \<Rightarrow> Sys" where
  "unlink w f st = (if unlinkOk w f then st \<lparr> files := removeAll f (files st) \<rparr> else st)"

definition writeFile :: "World \<Rightarrow> ScratchFile \<Rightarrow> Sys \<Rightarrow> unit Outcome" where
  "writeFile w f st =
     (case writeFileError w f of
        Some msg \<Rightarrow> (Inl msg, st)
      | None \<Rightarrow> (Inr (), createFile f st))"

definition downloadFile :: "World \<Rightarrow> string \<Rightarrow> ScratchFile \<Rightarrow> Sys \<Rightarrow> unit Outcome" where
  "downloadFile w url destPath st =
     (case fetchError w url of
        Some msg \<Rightarrow> (Inl msg, st)
      | None \<Rightarrow> writeFile w destPath st)"

text \<open>
  \<open>runFFmpeg\<close>: resolves when the process exits with code 0, and then its output file
  exists; rejects otherwise.
\<close>

definition runFFmpeg :: "World \<Rightarrow> FFmpegArgs \<Rightarrow> Sys \<Rightarrow> unit Outcome" where
  "runFFmpeg w args st =
     (case ffmpegError w args of
        Some msg \<Rightarrow> (Inl msg, st)
      | None \<Rightarrow> (Inr (), createFile (outputOf args) st))"

text \<open>
  \<open>x.toFixed(2)\<close> of a double \<open>x\<close>, as the number its two-decimal string denotes:
  \<open>n / 100\<close> for the integer \<open>n\<close> that brings \<open>n / 100\<close> nearest to the exact value
  of the double, the larger \<open>n\<close> on a tie, the sign handled apart.
\<close>

definition toFixed2 :: "real \<Rightarrow> real" where
  "toFixed2 x =
     (if x < 0 then - (of_int \<lfloor>- x * 100 + 1 / 2\<rfloor> / 100)
      else of_int \<lfloor>x * 100 + 1 / 2\<rfloor> / 100)"

type_synonym Downloaded = "ScratchFile \<times> ScratchFile option \<times> ExportClip"

text \<open>The download loop, \<open>for (let i = 0; i < exportData.clips.length; i++)\<close>.\<close>

fun downloadLoop ::
  "World \<Rightarrow> nat \<Rightarrow> ExportClip list \<Rightarrow> nat \<Rightarrow> Downloaded list \<Rightarrow> Sys \<Rightarrow> (Downloaded list) Outcome"
where
  "downloadLoop w n [] i downloadedClips st = (Inr downloadedClips, st)"
| "downloadLoop w n (clip # rest) i downloadedClips st =
     (let videoPath = VideoFile i;
          audioPath = (case ec_audioUrl clip of
                         None \<Rightarrow> None
                       | Some u \<Rightarrow> if u \<noteq> [] then Some (VoiceoverFile i) else None)
      in case downloadFile w (ec_videoUrl clip) videoPath st of
           (Inl e, st1) \<Rightarrow> (Inl e, st1)
         | (Inr u1, st1) \<Rightarrow>
             (case (case audioPath of
                      None \<Rightarrow> (Inr (), st1)
                    | Some ap \<Rightarrow> downloadFile w (the (ec_audioUrl clip)) ap st1) of
                (Inl e, st2) \<Rightarrow> (Inl e, st2)
              | (Inr u2, st2) \<Rightarrow>
                  downloadLoop w n rest (i + 1) (downloadedClips @ [(videoPath, audioPath, clip)])
                    (emit (ExportProgress (5 + \<lfloor>toDouble (toDouble (real i / real n) * 15)\<rfloor>)
                       ''downloading'') st2)))"

text \<open>
  The argument list of the per-clip FFmpeg run: with a voiceover, the mix with the two
  gains formatted by \<open>toFixed(2)\<close>; without, the plain trim.
\<close>

definition processArgs :: "real \<Rightarrow> nat \<Rightarrow> Downloaded \<Rightarrow> FFmpegArgs" where
  "processArgs audioMix i d =
     (case d of (videoPath, audioPath, clip) \<Rightarrow>
        (let processedPath = ProcessedFile i;
             trimStart = ec_trimStart clip;
             trimEnd = ec_trimEnd clip;
             effectiveDuration = toDouble (toDouble (ec_duration clip - trimStart) - trimEnd)
         in case audioPath of
              Some ap \<Rightarrow>
                (let clipVolume = toFixed2 (max 0 (toDouble (1 - audioMix)));
                     voiceoverVolume = toFixed2 (max 0 audioMix)
                 in MixArgs trimStart videoPath ap effectiveDuration clipVolume voiceoverVolume
                      processedPath)
            | None \<Rightarrow> TrimArgs trimStart videoPath effectiveDuration processedPath))"

text \<open>The processing loop, \<open>for (let i = 0; i < downloadedClips.length; i++)\<close>.\<close>

fun processLoop ::
  "World \<Rightarrow> real \<Rightarrow> nat \<Rightarrow> Downloaded list \<Rightarrow> nat \<Rightarrow> ScratchFile list \<Rightarrow> Sys
     \<Rightarrow> (ScratchFile list) Outcome"
where
  "processLoop w audioMix n [] i processedClips st = (Inr processedClips, st)"
| "processLoop w audioMix n (d # rest) i processedClips st =
     (case runFFmpeg w (processArgs audioMix i d) st of
        (Inl e, st1) \<Rightarrow> (Inl e, st1)
      | (Inr u1, st1) \<Rightarrow>
          processLoop w audioMix n rest (i + 1) (processedClips @ [ProcessedFile i])
            (emit (ExportProgress (25 + \<lfloor>toDouble (toDouble (real i / real n) * 40)\<rfloor>)
                    ''processing'') st1))"

text \<open>The cleanup block at the end of the \<open>try\<close> body.\<close>

fun cleanupDownloaded :: "World \<Rightarrow> Downloaded list \<Rightarrow> Sys \<Rightarrow> Sys" where
  "cleanupDownloaded w [] st = st"
| "cleanupDownloaded w ((videoPath, audioPath, clip) # rest) st =
     cleanupDownloaded w rest
       (let st1 = unlink w videoPath st
        in case audioPath of None \<Rightarrow> st1 | Some ap \<Rightarrow> unlink w ap st1)"

definition cleanup ::
  "World \<Rightarrow> Downloaded list \<Rightarrow> ScratchFile list \<Rightarrow> ScratchFile option \<Rightarrow> Sys \<Rightarrow> Sys" where
  "cleanup w downloadedClips processedClips subtitlePath st =
     (let st1 = cleanupDownloaded w downloadedClips st;
          st2 = fold (unlink w) processedClips st1;
          st3 = unlink w ConcatTxt st2;
          st4 = unlink w ConcatOutputMp4 st3;
          st5 = unlink w OutputMp4 st4
      in case subtitlePath of None \<Rightarrow> st5 | Some sp \<Rightarrow> unlink w sp st5)"

text \<open>
  \<open>exportData.subtitles?.enabled && exportData.subtitles?.words?.length\<close>, and the
  style, if any.
\<close>

definition wantsSubtitleFile :: "ExportData \<Rightarrow> bool" where
  "wantsSubtitleFile exportData =
     (case ed_subtitles exportData of
        None \<Rightarrow> False
      | Some subs \<Rightarrow>
          es_enabled subs \<and> (case es_words subs of None \<Rightarrow> False | Some ws \<Rightarrow> ws \<noteq> []))"

definition subtitleStyle :: "ExportData \<Rightarrow> ExportStyle option" where
  "subtitleStyle exportData =
     (case ed_subtitles exportData of None \<Rightarrow> None | Some subs \<Rightarrow> es_style subs)"

text \<open>\<open>style.color.replace('#', '')\<close>: the first \<open>#\<close> is dropped.\<close>

fun fontColor :: "ExportStyle \<Rightarrow> string" where
  "fontColor (ExportStyle color bgColor fontSize) = remove1 (CHR ''#'') color"

text \<open>
  The steps after the two loops are the blocks the source marks by its comments. Each
  is a definition that ends by entering the next, in the source's order: the
  \<open>encoding\<close> event and the subtitle file (\<open>finishExport\<close>), the concat list and the
  concatenation (\<open>concatStage\<close>), the burn-in or the copy (\<open>subtitleStage\<close>), and the
  upload, the signed URL, the project update, the two closing events and the cleanup
  (\<open>uploadStage\<close>).
\<close>

definition uploadStage ::
  "World \<Rightarrow> string \<Rightarrow> Downloaded list \<Rightarrow> ScratchFile list \<Rightarrow> ScratchFile option \<Rightarrow> Sys
     \<Rightarrow> string Outcome"
where
  "uploadStage w exportId downloadedClips processedClips subtitlePath st =
     (let st1 = emit (ExportProgress 92 ''uploading'') st
      in case uploadError w of
           Some e \<Rightarrow> (Inl e, st1)
         | None \<Rightarrow>
             (case getSignedUrl w of
                Inl e \<Rightarrow> (Inl e, st1)
              | Inr signedUrl \<Rightarrow>
                  (case dbUpdateError w of
                     Some e \<Rightarrow> (Inl e, st1)
                   | None \<Rightarrow>
                       (let st2 = emit (ExportProgress 100 ''completed'') st1;
                            st3 = emit (ExportCompleted exportId signedUrl) st2
                        in (Inr signedUrl,
                            cleanup w downloadedClips processedClips subtitlePath st3)))))"

definition subtitleArgs :: "ExportData \<Rightarrow> ScratchFile option \<Rightarrow> FFmpegArgs" where
  "subtitleArgs exportData subtitlePath =
     (case (subtitlePath, subtitleStyle exportData) of
        (Some sp, Some style) \<Rightarrow> SubtitleArgs ConcatOutputMp4 sp (fontColor style) OutputMp4
      | _ \<Rightarrow> CopyArgs ConcatOutputMp4 OutputMp4)"

definition subtitleStage ::
  "World \<Rightarrow> string \<Rightarrow> ExportData \<Rightarrow> Downloaded list \<Rightarrow> ScratchFile list
     \<Rightarrow> ScratchFile option \<Rightarrow> Sys \<Rightarrow> string Outcome"
where
  "subtitleStage w exportId exportData downloadedClips processedClips subtitlePath st =
     (case runFFmpeg w (subtitleArgs exportData subtitlePath)
             (emit (ExportProgress 85 ''encoding'') st) of
        (Inl e, st1) \<Rightarrow> (Inl e, st1)
      | (Inr u, st1) \<Rightarrow>
          uploadStage w exportId downloadedClips processedClips subtitlePath st1)"

definition concatStage ::
  "World \<Rightarrow> string \<Rightarrow> ExportData \<Rightarrow> Downloaded list \<Rightarrow> ScratchFile list
     \<Rightarrow> ScratchFile option \<Rightarrow> Sys \<Rightarrow> string Outcome"
where
  "concatStage w exportId exportData downloadedClips processedClips subtitlePath st =
     (case writeFile w ConcatTxt st of
        (Inl e, st1) \<Rightarrow> (Inl e, st1)
      | (Inr u1, st1) \<Rightarrow>
          (case runFFmpeg w (ConcatArgs ConcatTxt ConcatOutputMp4) st1 of
             (Inl e, st2) \<Rightarrow> (Inl e, st2)
           | (Inr u2, st2) \<Rightarrow>
               subtitleStage w exportId exportData downloadedClips processedClips
                 subtitlePath st2))"

definition finishExport ::
  "World \<Rightarrow> string \<Rightarrow> ExportData \<Rightarrow> Downloaded list \<Rightarrow> ScratchFile list \<Rightarrow> Sys \<Rightarrow> string Outcome"
where
  "finishExport w exportId exportData downloadedClips processedClips st =
     (let st1 = emit (ExportProgress 70 ''encoding'') st
      in if wantsSubtitleFile exportData
         then (case writeFile w SubtitlesSrt st1 of
                 (Inl e, st2) \<Rightarrow> (Inl e, st2)
               | (Inr u, st2) \<Rightarrow>
                   concatStage w exportId exportData downloadedClips processedClips
                     (Some SubtitlesSrt) st2)
         else concatStage w exportId exportData downloadedClips processedClips None st1)"

text \<open>The body of the \<open>try\<close>.\<close>

definition exportTry :: "World \<Rightarrow> string \<Rightarrow> ExportData \<Rightarrow> Sys \<Rightarrow> string Outcome" where
  "exportTry w exportId exportData st =
     (case downloadLoop w (length (ed_clips exportData)) (ed_clips exportData) 0 []
             (emit (ExportProgress 5 ''downloading'') st) of
        (Inl e, st1) \<Rightarrow> (Inl e, st1)
      | (Inr downloadedClips, st1) \<Rightarrow>
          (case processLoop w (ed_audioMix exportData) (length downloadedClips) downloadedClips 0 []
                  (emit (ExportProgress 25 ''processing'') st1) of
             (Inl e, st2) \<Rightarrow> (Inl e, st2)
           | (Inr processedClips, st2) \<Rightarrow>
               finishExport w exportId exportData downloadedClips processedClips st2))"

text \<open>
  The \<open>try\<close>/\<open>catch\<close>: on success the answer is \<open>sendSuccess\<close>; the \<open>catch\<close> block emits
  \<open>export:failed\<close> and answers \<open>sendError\<close>.
\<close>

definition exportRun :: "World \<Rightarrow> string \<Rightarrow> ExportData \<Rightarrow> Sys \<Rightarrow> Response \<times> Sys" where
  "exportRun w exportId exportData st =
     (case exportTry w exportId exportData st of
        (Inr signedUrl, st1) \<Rightarrow> (SendSuccess exportId signedUrl ''completed'' False, st1)
      | (Inl msg, st1) \<Rightarrow>
          (SendError ''Failed to export video. Please try again.'' 500,
           emit (ExportFailed msg) st1))"

text \<open>The mock export of development mode without FFmpeg.\<close>

definition mockExport :: "World \<Rightarrow> string \<Rightarrow> ExportData \<Rightarrow> Sys \<Rightarrow> Response \<times> Sys" where
  "mockExport w exportId exportData st =
     (let st1 = emit (ExportProgress 10 ''downloading'') st;
          st2 = emit (ExportProgress 30 ''processing'') st1;
          st3 = emit (ExportProgress 60 ''encoding'') st2;
          st4 = emit (ExportProgress 90 ''uploading'') st3;
          mockUrl = (case ed_clips exportData of
                       [] \<Rightarrow> ''https://storage.googleapis.com/gtv-videos-bucket/sample/ForBiggerBlazes.mp4''
                     | c # cs \<Rightarrow>
                         if ec_videoUrl c \<noteq> [] then ec_videoUrl c
                         else ''https://storage.googleapis.com/gtv-videos-bucket/sample/ForBiggerBlazes.mp4'')
      in case dbUpdateError w of
           Some e \<Rightarrow> (Thrown e, st4)
         | None \<Rightarrow>
             (SendSuccess exportId mockUrl ''completed'' True,
              emit (ExportCompleted exportId mockUrl)
                (emit (ExportProgress 100 ''completed'') st4)))"

text \<open>
  The handler after \<open>verifyProjectAccess\<close>; \<open>useDevMode\<close> and \<open>ffmpegAvailable\<close> are the
  module constants \<open>USE_DEV_MODE\<close> and \<open>FFMPEG_AVAILABLE\<close>.
\<close>

definition exportHandler ::
  "bool \<Rightarrow> bool \<Rightarrow> World \<Rightarrow> string \<Rightarrow> ExportData \<Rightarrow> Sys \<Rightarrow> Response \<times> Sys" where
  "exportHandler useDevMode ffmpegAvailable w exportId exportData st =
     (if useDevMode \<and> \<not> ffmpegAvailable then mockExport w exportId exportData st
      else if \<not> ffmpegAvailable
      then (SendError ''FFmpeg is not installed. Please install FFmpeg to export videos.'' 500, st)
      else (case mkdirError w of
              Some e \<Rightarrow> (Thrown e, st)
            | None \<Rightarrow> exportRun w exportId exportData st))"

text \<open>The \<open>status\<close> labels of the progress events emitted, in order.\<close>

fun statusOf :: "Event \<Rightarrow> string list" where
  "statusOf (ExportProgress progress status) = [status]"
| "statusOf (ExportCompleted exportId url) = []"
| "statusOf (ExportFailed msg) = []"

definition statuses :: "Sys \<Rightarrow> string list" where
  "statuses st = concat (map statusOf (emitted st))"

definition emptySys :: Sys where
  "emptySys = \<lparr> files = [], emitted = [] \<rparr>"


section \<open>Notions used by the properties\<close>

text \<open>
  The actions that reach \<open>saveToHistory\<close> in a given state: the eleven cases of the
  reducer that call it. PASTE\_CLIP calls it only behind its guard
  \<open>if (!state.clipboard) return state\<close>.
\<close>

definition historyTracked :: "EditorState \<Rightarrow> EditorAction \<Rightarrow> bool" where
  "historyTracked state action =
     (case action of
        ADD_CLIP trackId clip \<Rightarrow> True
      | REMOVE_CLIP clipId \<Rightarrow> True
      | MOVE_CLIP clipId newStartTime newTrackId \<Rightarrow> True
      | TRIM_CLIP clipId trimStart trimEnd \<Rightarrow> True
      | SPLIT_CLIP clipId splitPoint \<Rightarrow> True
      | PASTE_CLIP trackId startTime \<Rightarrow> clipboard state \<noteq> None
      | ADD_TRACK track \<Rightarrow> True
      | REMOVE_TRACK trackId \<Rightarrow> True
      | ADD_SUBTITLE subtitle \<Rightarrow> True
      | UPDATE_SUBTITLE subtitleId updates \<Rightarrow> True
      | REMOVE_SUBTITLE subtitleId \<Rightarrow> True
      | _ \<Rightarrow> False)"

text \<open>
  Degenerate parameters: a split point at or beyond an edge of the clip, or a clip id
  that no track holds, for SPLIT\_CLIP, TRIM\_CLIP and MOVE\_CLIP.
\<close>

definition degenerate :: "EditorState \<Rightarrow> EditorAction \<Rightarrow> bool" where
  "degenerate state action =
     (case action of
        SPLIT_CLIP clipId p \<Rightarrow>
          (case findClip (tracks state) clipId of
             None \<Rightarrow> True
           | Some (si, index) \<Rightarrow>
               (let clip = track_clips (tracks state ! si) ! index
                in toDouble (p - clip_startTime clip) \<le> 0
                   \<or> toDouble (p - clip_startTime clip) \<ge> clip_duration clip))
      | TRIM_CLIP clipId trimStart trimEnd \<Rightarrow> findClip (tracks state) clipId = None
      | MOVE_CLIP clipId newStartTime newTrackId \<Rightarrow> findClip (tracks state) clipId = None
      | _ \<Rightarrow> False)"

text \<open>The kind of track a clip of a given kind belongs on.\<close>

definition kindOfClip :: "ClipType \<Rightarrow> TrackType" where
  "kindOfClip k = (case k of Video \<Rightarrow> VideoTrack | Audio \<Rightarrow> AudioTrack)"

text \<open>
  The \<open>status\<close> labels of a run over \<open>n\<close> clips that reaches its end: one
  \<open>downloading\<close> and one \<open>processing\<close> event before each loop and one per clip, two
  \<open>encoding\<close> events, \<open>uploading\<close> and \<open>completed\<close>.
\<close>

definition statusSequence :: "nat \<Rightarrow> string list" where
  "statusSequence n =
     replicate (Suc n) ''downloading'' @ replicate (Suc n) ''processing''
       @ [''encoding'', ''encoding'', ''uploading'', ''completed'']"

text \<open>
  The stage order in the words of the specification: downloading, processing,
  concatenating, subtitle-burn only if subtitles are enabled, uploading, completed.
\<close>

definition specStageOrder :: "bool \<Rightarrow> string list" where
  "specStageOrder subtitlesEnabled =
     [''downloading'', ''processing'', ''concatenating'']
       @ (if subtitlesEnabled then [''subtitle-burn''] else [])
       @ [''uploading'', ''completed'']"

text \<open>
  The three cases of the reducer that can change \<open>draft.tracks\<close> and have no
  \<open>draft.duration = calculateDuration(draft.tracks)\<close>, and the two cases that assign
  the playhead.
\<close>

definition skipsRecompute :: "EditorAction \<Rightarrow> bool" where
  "skipsRecompute action =
     (case action of
        ADD_TRACK track \<Rightarrow> True
      | REMOVE_TRACK trackId \<Rightarrow> True
      | SPLIT_CLIP clipId splitPoint \<Rightarrow> True
      | _ \<Rightarrow> False)"

definition writesPlayhead :: "EditorAction \<Rightarrow> bool" where
  "writesPlayhead action =
     (case action of SET_PLAYHEAD time \<Rightarrow> True | RESET \<Rightarrow> True | _ \<Rightarrow> False)"

text \<open>Both bounds that hold in every state of a session.\<close>

definition nonneg :: "EditorState \<Rightarrow> bool" where
  "nonneg state \<longleftrightarrow> 0 \<le> playhead state \<and> 0 \<le> duration state"

subsection \<open>Concrete timelines\<close>

text \<open>
  The two clips of the specification's scenario, A at \<open>[0, 5)\<close> and B at \<open>[5, 8)\<close>, and
  the sessions that place them.
\<close>

definition clipA :: TimelineClip where
  "clipA = \<lparr> clip_id = ''a'', clip_sourceId = ''src-a'',
       clip_sourceUrl = ''https://cdn.example/a.mp4'',
       clip_startTime = 0, clip_duration = 5, clip_trimStart = 0, clip_trimEnd = 0,
       clip_type = Video \<rparr>"

definition clipB :: TimelineClip where
  "clipB = \<lparr> clip_id = ''b'', clip_sourceId = ''src-b'',
       clip_sourceUrl = ''https://cdn.example/b.mp4'',
       clip_startTime = 5, clip_duration = 3, clip_trimStart = 0, clip_trimEnd = 0,
       clip_type = Video \<rparr>"

definition stateA :: EditorState where
  "stateA = editorReducer ''u1'' initialState (ADD_CLIP ''video-track-1'' clipA)"

definition stateAB :: EditorState where
  "stateAB = dispatchAll initialState
     [(''u1'', ADD_CLIP ''video-track-1'' clipA), (''u2'', ADD_CLIP ''video-track-1'' clipB)]"

definition stateUndone :: EditorState where
  "stateUndone = editorReducer ''u3'' stateAB UNDO"

definition audioTrack2 :: TimelineTrack where
  "audioTrack2 = \<lparr> track_id = ''audio-track-2'', track_name = ''Audio 2'',
       track_type = AudioTrack, track_clips = [], track_muted = None, track_volume = Some 1,
       track_locked = Some False, track_visible = Some True \<rparr>"

definition videoTrack2 :: TimelineTrack where
  "videoTrack2 = \<lparr> track_id = ''video-track-2'', track_name = ''Video 2'',
       track_type = VideoTrack, track_clips = [clipA], track_muted = None, track_volume = None,
       track_locked = Some False, track_visible = Some True \<rparr>"

text \<open>A video clip that ADD\_CLIP has put on the audio track, beside a second audio track.\<close>

definition stateMisplaced :: EditorState where
  "stateMisplaced = dispatchAll initialState
     [(''u1'', ADD_TRACK audioTrack2), (''u2'', ADD_CLIP ''audio-track-1'' clipA)]"

text \<open>The session of clips A and B with one subtitle.\<close>

definition subtitleHello :: SubtitleItem where
  "subtitleHello = \<lparr> sub_id = ''s1'', sub_text = ''hello'', sub_startTime = 0, sub_endTime = 1,
       sub_style = \<lparr> style_preset = ''default'', style_fontSize = 24, style_color = ''#FFFFFF'',
         style_backgroundColor = ''#000000'', style_position = Bottom \<rparr> \<rparr>"

definition stateABS :: EditorState where
  "stateABS = editorReducer ''u3'' stateAB (ADD_SUBTITLE subtitleHello)"

text \<open>
  Three clips whose times are not whole numbers: one at start 0 of duration 0.9, one
  at start 0.1 of duration 0.4, one at start 0.2 of duration 0.8, each alone on the
  video track.
\<close>

definition clipNine :: TimelineClip where
  "clipNine = \<lparr> clip_id = ''n'', clip_sourceId = ''src-n'',
       clip_sourceUrl = ''https://cdn.example/n.mp4'',
       clip_startTime = 0, clip_duration = toDouble (9 / 10), clip_trimStart = 0,
       clip_trimEnd = 0, clip_type = Video \<rparr>"

definition stateNine :: EditorState where
  "stateNine = editorReducer ''u1'' initialState (ADD_CLIP ''video-track-1'' clipNine)"

definition clipTenth :: TimelineClip where
  "clipTenth = \<lparr> clip_id = ''t'', clip_sourceId = ''src-t'',
       clip_sourceUrl = ''https://cdn.example/t.mp4'',
       clip_startTime = toDouble (1 / 10), clip_duration = toDouble (4 / 10),
       clip_trimStart = 0, clip_trimEnd = 0, clip_type = Video \<rparr>"

definition stateTenth :: EditorState where
  "stateTenth = editorReducer ''u1'' initialState (ADD_CLIP ''video-track-1'' clipTenth)"

definition clipFifth :: TimelineClip where
  "clipFifth = \<lparr> clip_id = ''f'', clip_sourceId = ''src-f'',
       clip_sourceUrl = ''https://cdn.example/f.mp4'',
       clip_startTime = toDouble (2 / 10), clip_duration = toDouble (8 / 10),
       clip_trimStart = 0, clip_trimEnd = 0, clip_type = Video \<rparr>"

definition stateFifth :: EditorState where
  "stateFifth = editorReducer ''u1'' initialState (ADD_CLIP ''video-track-1'' clipFifth)"

subsection \<open>Concrete export requests\<close>

definition exportClipA :: ExportClip where
  "exportClipA = \<lparr> ec_lineId = ''line-a'', ec_videoUrl = ''https://cdn.example/a.mp4'',
       ec_audioUrl = Some ''https://cdn.example/a.mp3'',
       ec_startTime = 0, ec_duration = 5, ec_trimStart = 0, ec_trimEnd = 0 \<rparr>"

definition exportClipB :: ExportClip where
  "exportClipB = \<lparr> ec_lineId = ''line-b'', ec_videoUrl = ''https://cdn.example/b.mp4'',
       ec_audioUrl = Some ''https://cdn.example/b.mp3'',
       ec_startTime = 5, ec_duration = 3, ec_trimStart = 0, ec_trimEnd = 0 \<rparr>"

definition exportAB :: ExportData where
  "exportAB = \<lparr> ed_clips = [exportClipA, exportClipB], ed_subtitles = None,
       ed_audioMix = toDouble (4 / 5) \<rparr>"

definition exportABSubtitled :: ExportData where
  "exportABSubtitled = exportAB \<lparr> ed_subtitles := Some
       \<lparr> es_enabled = True, es_style = Some (ExportStyle ''#FFFFFF'' ''#000000'' ''24''),
         es_words = Some [SubtitleWord ''hello'' 0 1] \<rparr> \<rparr>"

text \<open>A world in which nothing fails, and one in which the narration of clip B is not found.\<close>

definition worldOk :: World where
  "worldOk = \<lparr> mkdirError = None, fetchError = (\<lambda>url. None), writeFileError = (\<lambda>f. None),
       ffmpegError = (\<lambda>args. None), uploadError = None,
       getSignedUrl = Inr ''https://storage.example/signed'', dbUpdateError = None,
       unlinkOk = (\<lambda>f. True) \<rparr>"

definition worldNarrationBFails :: World where
  "worldNarrationBFails = worldOk \<lparr> fetchError := (\<lambda>url.
       if url = ''https://cdn.example/b.mp3'' then Some ''Failed to download: Not Found''
       else None) \<rparr>"


text \<open>The scratch files that the download loop recorded in \<open>downloadedClips\<close>.\<close>

definition downloadedFiles :: "Downloaded list \<Rightarrow> ScratchFile set" where
  "downloadedFiles ds = (\<Union>d \<in> set ds. case d of (videoPath, audioPath, clip) \<Rightarrow>
       insert videoPath (set_option audioPath))"

text \<open>
  Worlds in which one later step fails: the FFmpeg run of the second clip, the
  concatenation, the burn-in or copy, and the upload.
\<close>

definition worldProcessingFails :: World where
  "worldProcessingFails = worldOk \<lparr> ffmpegError := (\<lambda>args.
       if outputOf args = ProcessedFile 1 then Some ''FFmpeg exited with code 1'' else None) \<rparr>"

definition worldConcatFails :: World where
  "worldConcatFails = worldOk \<lparr> ffmpegError := (\<lambda>args.
       if outputOf args = ConcatOutputMp4 then Some ''FFmpeg exited with code 1'' else None) \<rparr>"

definition worldBurnFails :: World where
  "worldBurnFails = worldOk \<lparr> ffmpegError := (\<lambda>args.
       if outputOf args = OutputMp4 then Some ''FFmpeg exited with code 1'' else None) \<rparr>"

definition worldUploadFails :: World where
  "worldUploadFails = worldOk \<lparr> uploadError := Some ''upload failed'' \<rparr>"

text \<open>A world in which the work directory cannot be created.\<close>

definition worldMkdirFails :: World where
  "worldMkdirFails = worldOk \<lparr> mkdirError := Some ''EACCES: permission denied, mkdir'' \<rparr>"


section \<open>Properties of the arithmetic\<close>

text \<open>
  Rules that evaluate \<open>toDouble\<close> at a literal, and the bounds used below: the result
  of an operation on doubles in \<open>[0, 1]\<close> is within \<open>1 / 2 ^ 54\<close> of the exact result.
\<close>

lemma exponentUp_numeral:
  "exponentUp (numeral k) a = (if a < 2 then 0 else 1 + exponentUp (pred_numeral k) (a / 2))"
  by (simp add: numeral_eq_Suc)

lemma exponentDown_numeral:
  "exponentDown (numeral k) a = (if 1 \<le> a then 0 else exponentDown (pred_numeral k) (a * 2) - 1)"
  by (simp add: numeral_eq_Suc)

lemma toDouble_unfold:
  "toDouble x =
     (if x = 0 then 0
      else sgn x * (of_int (roundTiesToEven (\<bar>x\<bar> / pow2 (binaryExponent \<bar>x\<bar> - 52)))
                    * pow2 (binaryExponent \<bar>x\<bar> - 52)))"
  by (simp add: toDouble_def Let_def)

lemma toDouble_zero [simp]: "toDouble 0 = 0"
  by (simp add: toDouble_def)

lemma toDouble_minus: "toDouble (- x) = - toDouble x"
  by (simp add: toDouble_def Let_def sgn_minus)

lemmas toDouble_literal =
  toDouble_unfold [of "numeral k"] toDouble_unfold [of "numeral a / numeral b"]
  toDouble_unfold [of 1] toDouble_unfold [of "1 / numeral b"] toDouble_minus
  for k a b

lemmas double_eval = toDouble_literal binaryExponent_def pow2_def roundTiesToEven_def
  exponentUp_numeral exponentDown_numeral

lemma toDouble_one [simp]: "toDouble 1 = 1"
  by (simp add: double_eval Let_def)

lemma roundTiesToEven_near: "\<bar>of_int (roundTiesToEven q) - q\<bar> \<le> 1 / 2"
proof -
  have "of_int \<lfloor>q\<rfloor> \<le> q" "q < of_int \<lfloor>q\<rfloor> + 1"
    by linarith+
  then show ?thesis
    by (auto simp: roundTiesToEven_def Let_def)
qed

lemma roundTiesToEven_nonneg: "0 \<le> q \<Longrightarrow> 0 \<le> roundTiesToEven q"
proof -
  assume "0 \<le> q"
  then have "0 \<le> \<lfloor>q\<rfloor>" by simp
  then show ?thesis
    by (auto simp: roundTiesToEven_def Let_def)
qed

lemma pow2_pos: "0 < pow2 k"
  by (simp add: pow2_def)

lemma pow2_powr: "pow2 k = 2 powr (of_int k)"
proof (cases "0 \<le> k")
  case True
  then have "(2::real) powr (of_int k) = 2 powr (real (nat k))" by simp
  also have "\<dots> = 2 ^ nat k" by (simp add: powr_realpow)
  finally show ?thesis using True by (simp add: pow2_def)
next
  case False
  then have "(2::real) powr (of_int k) = 2 powr (- real (nat (- k)))" by simp
  also have "\<dots> = 1 / 2 ^ nat (- k)" by (simp add: powr_minus powr_realpow divide_inverse)
  finally show ?thesis using False by (simp add: pow2_def)
qed

lemma pow2_mono: "k \<le> l \<Longrightarrow> pow2 k \<le> pow2 l"
  by (simp add: pow2_powr)

lemma toDouble_nonneg: "0 \<le> x \<Longrightarrow> 0 \<le> toDouble x"
proof -
  assume x: "0 \<le> x"
  show ?thesis
  proof (cases "x = 0")
    case True
    then show ?thesis by simp
  next
    case False
    let ?u = "pow2 (binaryExponent \<bar>x\<bar> - 52)"
    from x pow2_pos [of "binaryExponent \<bar>x\<bar> - 52"] have "0 \<le> \<bar>x\<bar> / ?u" by simp
    then have "0 \<le> roundTiesToEven (\<bar>x\<bar> / ?u)" by (rule roundTiesToEven_nonneg)
    with x False pow2_pos [of "binaryExponent \<bar>x\<bar> - 52"] show ?thesis
      by (simp add: toDouble_unfold)
  qed
qed

lemma exponentDown_nonpos: "exponentDown fuel a \<le> 0"
proof (induction fuel arbitrary: a)
  case 0
  then show ?case by simp
next
  case (Suc fuel)
  from Suc [of "a * 2"] show ?case by simp
qed

lemma binaryExponent_below_one: "a < 1 \<Longrightarrow> binaryExponent a \<le> - 1"
  using exponentDown_nonpos [of 1021 "a * 2"]
  by (simp add: binaryExponent_def exponentDown_numeral)

lemma toDouble_near_unit:
  assumes "0 \<le> x" and "x \<le> 1"
  shows "\<bar>toDouble x - x\<bar> \<le> 1 / 2 ^ 54"
proof -
  consider "x = 0" | "x = 1" | "0 < x" "x < 1" using assms by fastforce
  then show ?thesis
  proof cases
    case 1
    then show ?thesis by simp
  next
    case 2
    then show ?thesis by simp
  next
    case 3
    let ?u = "pow2 (binaryExponent \<bar>x\<bar> - 52)"
    let ?n = "real_of_int (roundTiesToEven (\<bar>x\<bar> / ?u))"
    have u: "0 < ?u" by (rule pow2_pos)
    from 3 have "binaryExponent \<bar>x\<bar> - 52 \<le> - 53"
      using binaryExponent_below_one [of "\<bar>x\<bar>"] by simp
    then have "?u \<le> pow2 (- 53)" by (rule pow2_mono)
    then have ub: "?u \<le> 1 / 2 ^ 53" by (simp add: pow2_def)
    have td: "toDouble x = ?n * ?u"
      using 3 by (simp add: toDouble_unfold)
    have "\<bar>?n - \<bar>x\<bar> / ?u\<bar> \<le> 1 / 2" by (rule roundTiesToEven_near)
    then have "\<bar>?n - \<bar>x\<bar> / ?u\<bar> * ?u \<le> 1 / 2 * ?u"
      using u by (simp add: mult_right_mono)
    moreover have "\<bar>?n - \<bar>x\<bar> / ?u\<bar> * ?u = \<bar>?n * ?u - \<bar>x\<bar>\<bar>"
    proof -
      have "\<bar>?n - \<bar>x\<bar> / ?u\<bar> * ?u = \<bar>(?n - \<bar>x\<bar> / ?u) * ?u\<bar>"
        using u by (simp add: abs_mult)
      also have "(?n - \<bar>x\<bar> / ?u) * ?u = ?n * ?u - \<bar>x\<bar>"
        using u by (simp add: algebra_simps)
      finally show ?thesis .
    qed
    ultimately have "\<bar>?n * ?u - \<bar>x\<bar>\<bar> \<le> 1 / 2 * ?u" by simp
    also have "\<dots> \<le> 1 / 2 * (1 / 2 ^ 53)" using ub by simp
    also have "\<dots> = 1 / 2 ^ 54" by simp
    finally show ?thesis using 3 td by simp
  qed
qed


section \<open>Properties of the reducer\<close>

lemmas eval_defs = initialState_def saveToHistory_def snapshot_def calculateDuration_def
  clipMax_def sortClips_def sortSubtitles_def spliceIn_def spliceOut_def clipA_def clipB_def
  stateA_def stateAB_def stateUndone_def audioTrack2_def videoTrack2_def stateMisplaced_def
  subtitleHello_def stateABS_def clipNine_def stateNine_def clipTenth_def stateTenth_def clipFifth_def
  stateFifth_def
  kindOfClip_def double_eval Let_def

subsection \<open>Searching\<close>

lemma findIndex_Some:
  "findIndex p xs = Some i \<Longrightarrow> i < length xs \<and> p (xs ! i)"
proof (induction xs arbitrary: i)
  case Nil
  then show ?case by simp
next
  case (Cons x xs)
  then show ?case by (auto split: if_splits)
qed

lemma findClip_Some:
  "findClip ts clipId = Some (si, index) \<Longrightarrow>
     si < length ts \<and> index < length (track_clips (ts ! si))
     \<and> clip_id (track_clips (ts ! si) ! index) = clipId"
proof (induction ts arbitrary: si)
  case Nil
  then show ?case by simp
next
  case (Cons t ts)
  show ?case
  proof (cases "findIndex (\<lambda>c. clip_id c = clipId) (track_clips t)")
    case None
    with Cons.prems obtain sj where "findClip ts clipId = Some (sj, index)" "si = Suc sj"
      by auto
    with Cons.IH show ?thesis by simp
  next
    case (Some k)
    with Cons.prems have "si = 0" "k = index" by auto
    with Some findIndex_Some [of "\<lambda>c. clip_id c = clipId" "track_clips t" k]
    show ?thesis by simp
  qed
qed

subsection \<open>History\<close>

lemma saveToHistory_fields [simp]:
  "tracks (saveToHistory s) = tracks s"
  "subtitles (saveToHistory s) = subtitles s"
  "playhead (saveToHistory s) = playhead s"
  "duration (saveToHistory s) = duration s"
  "clipboard (saveToHistory s) = clipboard s"
  "selectedClipId (saveToHistory s) = selectedClipId s"
  "selectedSubtitleId (saveToHistory s) = selectedSubtitleId s"
  by (simp_all add: saveToHistory_def Let_def)

lemma saveToHistory_future [simp]: "future (history (saveToHistory s)) = []"
  by (simp add: saveToHistory_def Let_def)


lemma saveToHistory_past_explicit:
  "past (history (saveToHistory s))
     = (if length (past (history s)) \<ge> 50 then tl (past (history s) @ [snapshot s])
        else past (history s) @ [snapshot s])"
  by (auto simp: saveToHistory_def Let_def)

text \<open>Every tracked action ends with the history that \<open>saveToHistory\<close> left.\<close>

lemma tracked_history:
  "historyTracked s a \<Longrightarrow> history (editorReducer uuid s a) = history (saveToHistory s)"
  by (cases a) (auto simp: historyTracked_def Let_def split: option.splits prod.splits)

text \<open>A paste with an empty clipboard returns the state it was given: it is not tracked.\<close>

lemma paste_empty_clipboard:
  "clipboard s = None \<Longrightarrow> editorReducer uuid s (PASTE_CLIP trackId startTime) = s"
  by simp





subsection \<open>Degenerate edits\<close>

lemma degenerate_unchanged:
  "degenerate s a \<Longrightarrow> editorReducer uuid s a = saveToHistory s"
  by (cases a) (auto simp: degenerate_def Let_def split: option.splits prod.splits)

text \<open>
  Claim C10. Every tracked action pushes the snapshot of the state it was given onto
  \<open>history.past\<close> (dropping the oldest entry when 50 are already held) and empties
  \<open>history.future\<close>. This holds also when the parameters are degenerate (SPLIT\_CLIP
  with a split point at or beyond an edge of the clip; SPLIT\_CLIP, TRIM\_CLIP or
  MOVE\_CLIP with a clip id that no track holds), in which case tracks and subtitles
  are as before: the edit changes no content and discards the redo stack.
\<close>

theorem tracked_edit_pushes_and_clears:
  assumes "historyTracked s a"
  shows "past (history (editorReducer uuid s a))
           = (if length (past (history s)) \<ge> 50 then tl (past (history s) @ [snapshot s])
              else past (history s) @ [snapshot s])
       \<and> future (history (editorReducer uuid s a)) = []
       \<and> (degenerate s a \<longrightarrow>
            tracks (editorReducer uuid s a) = tracks s
          \<and> subtitles (editorReducer uuid s a) = subtitles s)"
proof -
  have h: "history (editorReducer uuid s a) = history (saveToHistory s)"
    using assms by (rule tracked_history)
  have d: "degenerate s a \<longrightarrow> tracks (editorReducer uuid s a) = tracks s
          \<and> subtitles (editorReducer uuid s a) = subtitles s"
    by (simp add: degenerate_unchanged)
  from h saveToHistory_past_explicit [of s] d show ?thesis by simp
qed

text \<open>
  Claim C10, at a concrete input: after an UNDO on the two-clip timeline one redo step
  is held; a split of clip A at time 7, beyond its end, leaves the tracks as they are
  and empties the redo stack.
\<close>

theorem tracked_edit_pushes_and_clears_witness:
  "historyTracked stateUndone (SPLIT_CLIP ''a'' 7)
   \<and> degenerate stateUndone (SPLIT_CLIP ''a'' 7)
   \<and> length (future (history stateUndone)) = 1
   \<and> future (history (editorReducer ''u4'' stateUndone (SPLIT_CLIP ''a'' 7))) = []
   \<and> length (past (history (editorReducer ''u4'' stateUndone (SPLIT_CLIP ''a'' 7)))) = 2
   \<and> tracks (editorReducer ''u4'' stateUndone (SPLIT_CLIP ''a'' 7)) = tracks stateUndone"
proof -
  have t: "historyTracked stateUndone (SPLIT_CLIP ''a'' 7)"
    by (simp add: historyTracked_def)
  have d: "degenerate stateUndone (SPLIT_CLIP ''a'' 7)"
    by (simp add: degenerate_def eval_defs)
  have f: "past (history stateUndone) = [snapshot initialState]"
    "length (future (history stateUndone)) = 1"
    by (simp_all add: eval_defs)
  from tracked_edit_pushes_and_clears [OF t, of "''u4''"] d f t show ?thesis
    by simp
qed

subsection \<open>Splitting\<close>

text \<open>
  The tracks after a split whose offset, as the reducer computes it, lies strictly
  inside the clip that \<open>findClip\<close> finds. The first clip's \<open>trimEnd\<close> is its old value
  plus \<open>clip.duration - splitPoint\<close> read after \<open>clip.duration = splitPoint\<close>, that is,
  plus 0.
\<close>

lemma split_tracks:
  assumes found: "findClip (tracks s) clipId = Some (si, index)"
    and lo: "0 < toDouble (p - clip_startTime (track_clips (tracks s ! si) ! index))"
    and hi: "toDouble (p - clip_startTime (track_clips (tracks s ! si) ! index))
               < clip_duration (track_clips (tracks s ! si) ! index)"
  shows "tracks (editorReducer uuid s (SPLIT_CLIP clipId p))
           = (tracks s)
               [si := (tracks s ! si)
                  \<lparr> track_clips :=
                      take index (track_clips (tracks s ! si))
                      @ [(track_clips (tracks s ! si) ! index)
                           \<lparr> clip_duration :=
                               toDouble (p - clip_startTime (track_clips (tracks s ! si) ! index)),
                             clip_trimEnd :=
                               toDouble (clip_trimEnd (track_clips (tracks s ! si) ! index)) \<rparr>,
                         (track_clips (tracks s ! si) ! index)
                           \<lparr> clip_id := uuid, clip_startTime := p,
                             clip_duration :=
                               toDouble (clip_duration (track_clips (tracks s ! si) ! index)
                                 - toDouble (p - clip_startTime (track_clips (tracks s ! si) ! index))),
                             clip_trimStart :=
                               toDouble (clip_trimStart (track_clips (tracks s ! si) ! index)
                                 + toDouble (p - clip_startTime (track_clips (tracks s ! si) ! index))) \<rparr>]
                      @ drop (index + 1) (track_clips (tracks s ! si)) \<rparr>]"
proof -
  from findClip_Some [OF found]
  have ix: "index < length (track_clips (tracks s ! si))"
    by simp
  let ?clips = "track_clips (tracks s ! si)"
  let ?clip = "?clips ! index"
  let ?rel = "toDouble (p - clip_startTime ?clip)"
  let ?first = "?clip \<lparr> clip_duration := ?rel, clip_trimEnd := toDouble (clip_trimEnd ?clip) \<rparr>"
  let ?second = "?clip \<lparr> clip_id := uuid, clip_startTime := p,
                         clip_duration := toDouble (clip_duration ?clip - ?rel),
                         clip_trimStart := toDouble (clip_trimStart ?clip + ?rel) \<rparr>"
  have sp: "spliceIn (index + 1) ?second (?clips[index := ?first])
              = take index ?clips @ [?first, ?second] @ drop (index + 1) ?clips"
    using ix by (simp add: spliceIn_def upd_conv_take_nth_drop)
  show ?thesis
    using found lo hi sp by (simp add: Let_def)
qed

text \<open>
  Claim C3 says that a split at a point strictly inside a clip
  (\<open>0 < splitPoint - startTime < duration\<close>) gives two clips whose durations sum to
  the original duration. The reducer computes on doubles. The clip at start 0 of
  duration 0.9, split at 0.3, gets durations 0.3 and 0.6000000000000001: neither their
  exact sum nor their rounded sum is 0.9. The clip at start 0.1 of duration 0.4, split
  at 0.5, a point strictly inside it, is not split at all: the offset \<open>0.5 - 0.1\<close>
  rounds to 0.4, the duration, and the guard returns. The clip at start 0.2 of
  duration 0.8, split at 0.9, gets a first half of duration 0.7 that ends, exactly and
  rounded, before 0.9, where the second half starts: a gap.
\<close>

theorem split_rounding_counterexample:
  "(let clip = track_clips (tracks stateNine ! 0) ! 0;
        s' = editorReducer ''u2'' stateNine (SPLIT_CLIP ''n'' (toDouble (3 / 10)));
        first = track_clips (tracks s' ! 0) ! 0;
        second = track_clips (tracks s' ! 0) ! 1
    in findClip (tracks stateNine) ''n'' = Some (0, 0)
     \<and> 0 < toDouble (3 / 10) - clip_startTime clip
     \<and> toDouble (3 / 10) - clip_startTime clip < clip_duration clip
     \<and> clip_duration clip = toDouble (9 / 10)
     \<and> clip_duration first = toDouble (3 / 10)
     \<and> clip_duration second = 5404319552844596 / 2 ^ 53
     \<and> toDouble (6 / 10) = 5404319552844595 / 2 ^ 53
     \<and> clip_duration first + clip_duration second \<noteq> clip_duration clip
     \<and> toDouble (clip_duration first + clip_duration second) \<noteq> clip_duration clip)
   \<and> (let clip = track_clips (tracks stateTenth ! 0) ! 0;
          s' = editorReducer ''u2'' stateTenth (SPLIT_CLIP ''t'' (1 / 2))
      in findClip (tracks stateTenth) ''t'' = Some (0, 0)
       \<and> 0 < 1 / 2 - clip_startTime clip
       \<and> 1 / 2 - clip_startTime clip < clip_duration clip
       \<and> toDouble (1 / 2 - clip_startTime clip) = clip_duration clip
       \<and> tracks s' = tracks stateTenth
       \<and> length (track_clips (tracks s' ! 0)) = 1)
   \<and> (let clip = track_clips (tracks stateFifth ! 0) ! 0;
          s' = editorReducer ''u2'' stateFifth (SPLIT_CLIP ''f'' (toDouble (9 / 10)));
          first = track_clips (tracks s' ! 0) ! 0;
          second = track_clips (tracks s' ! 0) ! 1
      in findClip (tracks stateFifth) ''f'' = Some (0, 0)
       \<and> 0 < toDouble (9 / 10) - clip_startTime clip
       \<and> toDouble (9 / 10) - clip_startTime clip < clip_duration clip
       \<and> clip_duration first = toDouble (7 / 10)
       \<and> clip_startTime second = toDouble (9 / 10)
       \<and> clip_startTime first + clip_duration first < clip_startTime second
       \<and> toDouble (clip_startTime first + clip_duration first) < clip_startTime second)"
  by (simp add: eval_defs)

text \<open>
  Claim C3, amended. Let SPLIT\_CLIP name a clip, found by \<open>findClip\<close> at position
  \<open>index\<close> of track \<open>si\<close>, and let the offset the reducer computes, the double
  \<open>rel\<close> nearest to \<open>splitPoint - startTime\<close>, satisfy \<open>0 < rel < duration\<close>. Then the
  clip is replaced, in place, by exactly two clips and nothing else in the tracks
  changes. The first keeps the id, the start time and \<open>trimStart\<close> and has duration
  \<open>rel\<close>; the second has the fresh id, starts at the absolute split point, and has as
  duration the double nearest to \<open>duration - rel\<close> and as \<open>trimStart\<close> the double
  nearest to \<open>trimStart + rel\<close>. When the subtraction \<open>duration - rel\<close> is exact, the
  durations sum to the original duration; when the subtraction
  \<open>splitPoint - startTime\<close> is exact, the second clip starts at the start of the first
  plus its new duration; when the addition \<open>trimStart + rel\<close> is exact, the second's
  \<open>trimStart\<close> is the original \<open>trimStart\<close> plus the first's new duration.
\<close>

theorem split_inside:
  assumes found: "findClip (tracks s) clipId = Some (si, index)"
    and lo: "0 < toDouble (p - clip_startTime (track_clips (tracks s ! si) ! index))"
    and hi: "toDouble (p - clip_startTime (track_clips (tracks s ! si) ! index))
               < clip_duration (track_clips (tracks s ! si) ! index)"
  shows "(let track = tracks s ! si;
              clips = track_clips track;
              clip = clips ! index;
              rel = toDouble (p - clip_startTime clip);
              s' = editorReducer uuid s (SPLIT_CLIP clipId p);
              clips' = track_clips (tracks s' ! si);
              first = clips' ! index;
              second = clips' ! (index + 1)
          in tracks s' = (tracks s)[si := track \<lparr> track_clips := clips' \<rparr>]
           \<and> clips' = take index clips @ [first, second] @ drop (index + 1) clips
           \<and> length clips' = length clips + 1
           \<and> clip_id first = clipId \<and> clip_id second = uuid
           \<and> clip_duration first = rel
           \<and> clip_duration second = toDouble (clip_duration clip - rel)
           \<and> clip_startTime first = clip_startTime clip
           \<and> clip_startTime second = p
           \<and> clip_trimStart first = clip_trimStart clip
           \<and> clip_trimStart second = toDouble (clip_trimStart clip + rel)
           \<and> (toDouble (clip_duration clip - rel) = clip_duration clip - rel \<longrightarrow>
                  clip_duration first + clip_duration second = clip_duration clip)
           \<and> (rel = p - clip_startTime clip \<longrightarrow>
                  clip_startTime second = clip_startTime first + clip_duration first)
           \<and> (toDouble (clip_trimStart clip + rel) = clip_trimStart clip + rel \<longrightarrow>
                  clip_trimStart second = clip_trimStart clip + clip_duration first))"
proof -
  from findClip_Some [OF found]
  have si: "si < length (tracks s)"
    and ix: "index < length (track_clips (tracks s ! si))"
    and cid: "clip_id (track_clips (tracks s ! si) ! index) = clipId"
    by simp_all
  show ?thesis
    unfolding Let_def split_tracks [OF found lo hi]
    using si ix cid by (auto simp add: nth_append)
qed

text \<open>
  Claim C3, amended, at the specification's scenario: clips A \<open>[0, 5)\<close> and B
  \<open>[5, 8)\<close>, A split at time 2, where every operation is exact. The track then holds
  \<open>[0, 2)\<close>, \<open>[2, 5)\<close> and \<open>[5, 8)\<close>, and the overall duration is still 8.
\<close>

theorem split_inside_witness:
  "findClip (tracks stateAB) ''a'' = Some (0, 0)
   \<and> 0 < toDouble (2 - clip_startTime (track_clips (tracks stateAB ! 0) ! 0))
   \<and> toDouble (2 - clip_startTime (track_clips (tracks stateAB ! 0) ! 0))
        < clip_duration (track_clips (tracks stateAB ! 0) ! 0)
   \<and> toDouble (2 - clip_startTime (track_clips (tracks stateAB ! 0) ! 0))
        = 2 - clip_startTime (track_clips (tracks stateAB ! 0) ! 0)
   \<and> toDouble (clip_duration (track_clips (tracks stateAB ! 0) ! 0) - 2)
        = clip_duration (track_clips (tracks stateAB ! 0) ! 0) - 2
   \<and> toDouble (clip_trimStart (track_clips (tracks stateAB ! 0) ! 0) + 2)
        = clip_trimStart (track_clips (tracks stateAB ! 0) ! 0) + 2
   \<and> clip_duration (track_clips (tracks (editorReducer ''c'' stateAB (SPLIT_CLIP ''a'' 2)) ! 0) ! 0)
       + clip_duration
           (track_clips (tracks (editorReducer ''c'' stateAB (SPLIT_CLIP ''a'' 2)) ! 0) ! (0 + 1))
       = 5
   \<and> map (\<lambda>c. (clip_id c, clip_startTime c, clip_duration c, clip_trimStart c))
        (track_clips (tracks (editorReducer ''c'' stateAB (SPLIT_CLIP ''a'' 2)) ! 0))
       = [(''a'', 0, 2, 0), (''c'', 2, 3, 2), (''b'', 5, 3, 0)]
   \<and> duration (editorReducer ''c'' stateAB (SPLIT_CLIP ''a'' 2)) = 8"
proof -
  have f: "findClip (tracks stateAB) ''a'' = Some (0, 0)"
    by (simp add: eval_defs)
  have c: "track_clips (tracks stateAB ! 0) ! 0 = clipA"
    by (simp add: eval_defs)
  have r: "toDouble (2 - clip_startTime clipA) = 2"
    by (simp add: clipA_def double_eval Let_def)
  have lo: "0 < toDouble (2 - clip_startTime (track_clips (tracks stateAB ! 0) ! 0))"
    and hi: "toDouble (2 - clip_startTime (track_clips (tracks stateAB ! 0) ! 0))
               < clip_duration (track_clips (tracks stateAB ! 0) ! 0)"
    unfolding c r by (simp_all add: clipA_def)
  have ex: "toDouble (2 - clip_startTime (track_clips (tracks stateAB ! 0) ! 0))
        = 2 - clip_startTime (track_clips (tracks stateAB ! 0) ! 0)"
    "toDouble (clip_duration (track_clips (tracks stateAB ! 0) ! 0) - 2)
        = clip_duration (track_clips (tracks stateAB ! 0) ! 0) - 2"
    "toDouble (clip_trimStart (track_clips (tracks stateAB ! 0) ! 0) + 2)
        = clip_trimStart (track_clips (tracks stateAB ! 0) ! 0) + 2"
    unfolding c by (simp_all add: clipA_def double_eval Let_def)
  have ex2: "toDouble (clip_duration (track_clips (tracks stateAB ! 0) ! 0)
                - toDouble (2 - clip_startTime (track_clips (tracks stateAB ! 0) ! 0)))
        = clip_duration (track_clips (tracks stateAB ! 0) ! 0)
                - toDouble (2 - clip_startTime (track_clips (tracks stateAB ! 0) ! 0))"
    unfolding c by (simp add: clipA_def double_eval Let_def)
  have "clip_duration (track_clips (tracks (editorReducer ''c'' stateAB (SPLIT_CLIP ''a'' 2)) ! 0) ! 0)
       + clip_duration
           (track_clips (tracks (editorReducer ''c'' stateAB (SPLIT_CLIP ''a'' 2)) ! 0) ! (0 + 1))
       = clip_duration (track_clips (tracks stateAB ! 0) ! 0)"
    using split_inside [OF f lo hi, of "''c''"] ex(1) ex2 unfolding Let_def by blast
  then have w: "clip_duration
         (track_clips (tracks (editorReducer ''c'' stateAB (SPLIT_CLIP ''a'' 2)) ! 0) ! 0)
       + clip_duration
           (track_clips (tracks (editorReducer ''c'' stateAB (SPLIT_CLIP ''a'' 2)) ! 0) ! (0 + 1))
       = 5"
    unfolding c by (simp add: clipA_def)
  have m: "map (\<lambda>c. (clip_id c, clip_startTime c, clip_duration c, clip_trimStart c))
        (track_clips (tracks (editorReducer ''c'' stateAB (SPLIT_CLIP ''a'' 2)) ! 0))
       = [(''a'', 0, 2, 0), (''c'', 2, 3, 2), (''b'', 5, 3, 0)]"
    by (simp add: eval_defs)
  have d: "duration (editorReducer ''c'' stateAB (SPLIT_CLIP ''a'' 2)) = 8"
    by (simp add: eval_defs)
  from f lo hi ex w m d show ?thesis by blast
qed

text \<open>
  The first clip's \<open>trimEnd\<close> after such a split: the source assigns
  \<open>clip.duration = splitPoint\<close> and then adds \<open>clip.duration - splitPoint\<close>, which is
  0 by then, so \<open>trimEnd\<close>, a double, keeps its value.
\<close>

lemma split_keeps_trimEnd:
  assumes found: "findClip (tracks s) clipId = Some (si, index)"
    and lo: "0 < toDouble (p - clip_startTime (track_clips (tracks s ! si) ! index))"
    and hi: "toDouble (p - clip_startTime (track_clips (tracks s ! si) ! index))
               < clip_duration (track_clips (tracks s ! si) ! index)"
    and dbl: "toDouble (clip_trimEnd (track_clips (tracks s ! si) ! index))
               = clip_trimEnd (track_clips (tracks s ! si) ! index)"
  shows "clip_trimEnd (track_clips (tracks (editorReducer uuid s (SPLIT_CLIP clipId p)) ! si) ! index)
           = clip_trimEnd (track_clips (tracks s ! si) ! index)"
proof -
  from findClip_Some [OF found]
  have si: "si < length (tracks s)"
    and ix: "index < length (track_clips (tracks s ! si))"
    by simp_all
  show ?thesis
    unfolding split_tracks [OF found lo hi]
    using si ix dbl by (simp add: nth_append)
qed

text \<open>
  Claim C4 says that after a split strictly inside a clip the first clip's \<open>trimEnd\<close>
  is the old \<open>trimEnd\<close> plus the removed tail, \<open>old duration - (splitPoint -
  startTime)\<close>. On the two-clip timeline, splitting A (start 0, duration 5,
  \<open>trimEnd\<close> 0) at time 2, the claim asks for \<open>trimEnd = 3\<close>; the reducer leaves it at
  0, while the duration is cut to 2.
\<close>

theorem split_trimEnd_unchanged:
  "(let s' = editorReducer ''u3'' stateAB (SPLIT_CLIP ''a'' 2);
        first = track_clips (tracks s' ! 0) ! 0
    in findClip (tracks stateAB) ''a'' = Some (0, 0)
     \<and> track_clips (tracks stateAB ! 0) ! 0 = clipA
     \<and> clip_id first = ''a''
     \<and> clip_duration first = 2
     \<and> clip_trimEnd first = 0
     \<and> clip_trimEnd clipA + (clip_duration clipA - (2 - clip_startTime clipA)) = 3)"
  by (simp add: eval_defs)

subsection \<open>Moving across kinds\<close>

text \<open>
  Claim C5 says that a MOVE\_CLIP onto an existing track whose kind differs from the
  clip's kind keeps the clip on its track and sets its start time to
  \<open>max(0, newStartTime)\<close>. First: a video clip at start 0 on the video track, moved
  to the audio track with new start 5, stays on the video track with start 0, not 5.
  Second: the reducer compares the kinds of the two tracks, not the clip's kind; a
  video clip that sits on an audio track and is moved to another audio track (a track
  whose kind differs from the clip's kind) does change track.
\<close>

theorem cross_kind_move_counterexample:
  "(let s' = editorReducer ''u2'' stateA (MOVE_CLIP ''a'' 5 (Some ''audio-track-1''))
    in findClip (tracks stateA) ''a'' = Some (0, 0)
     \<and> findIndex (\<lambda>t. track_id t = ''audio-track-1'') (tracks stateA) = Some 1
     \<and> track_type (tracks stateA ! 1) \<noteq> kindOfClip (clip_type (track_clips (tracks stateA ! 0) ! 0))
     \<and> findClip (tracks s') ''a'' = Some (0, 0)
     \<and> clip_startTime (track_clips (tracks s' ! 0) ! 0) = 0
     \<and> clip_startTime (track_clips (tracks s' ! 0) ! 0) \<noteq> max 0 5)
   \<and> (let s' = editorReducer ''u3'' stateMisplaced (MOVE_CLIP ''a'' 5 (Some ''audio-track-2''))
      in findClip (tracks stateMisplaced) ''a'' = Some (1, 0)
       \<and> findIndex (\<lambda>t. track_id t = ''audio-track-2'') (tracks stateMisplaced) = Some 2
       \<and> track_type (tracks stateMisplaced ! 2)
            \<noteq> kindOfClip (clip_type (track_clips (tracks stateMisplaced ! 1) ! 0))
       \<and> findClip (tracks s') ''a'' = Some (2, 0))"
  by (simp add: eval_defs)

text \<open>
  Claim C5, amended. Let MOVE\_CLIP name a clip, found on track \<open>si\<close>, and a non-empty
  \<open>newTrackId\<close> other than the id of that track, naming an existing track whose kind
  differs from the kind of track \<open>si\<close>. Then the move is rejected: the result is the
  state that \<open>saveToHistory\<close> returns, with the duration recomputed from its tracks.
  The snapshot is pushed and the redo stack emptied; the tracks are exactly as they
  were, so the clip keeps its track, its position and its start time; nothing else
  changes.
\<close>

theorem cross_kind_move_rejected:
  assumes found: "findClip (tracks s) clipId = Some (si, index)"
    and nonempty: "n \<noteq> []"
    and other: "n \<noteq> track_id (tracks s ! si)"
    and target: "findIndex (\<lambda>t. track_id t = n) (tracks s) = Some ti"
    and kinds: "track_type (tracks s ! ti) \<noteq> track_type (tracks s ! si)"
  shows "editorReducer uuid s (MOVE_CLIP clipId newStartTime (Some n))
           = (saveToHistory s) \<lparr> duration := calculateDuration (tracks s) \<rparr>
       \<and> tracks (editorReducer uuid s (MOVE_CLIP clipId newStartTime (Some n))) = tracks s
       \<and> findClip (tracks (editorReducer uuid s (MOVE_CLIP clipId newStartTime (Some n)))) clipId
           = Some (si, index)
       \<and> duration (editorReducer uuid s (MOVE_CLIP clipId newStartTime (Some n)))
           = calculateDuration (tracks s)"
proof -
  have eq: "editorReducer uuid s (MOVE_CLIP clipId newStartTime (Some n))
           = (saveToHistory s) \<lparr> duration := calculateDuration (tracks s) \<rparr>"
    using assms by (simp add: Let_def)
  show ?thesis
    unfolding eq using found by simp
qed

text \<open>
  Claim C5, amended, at a concrete input: the video clip A moved to the audio track.
  The clip stays first on the video track with start time 0, and the history holds
  one more snapshot.
\<close>

theorem cross_kind_move_rejected_witness:
  "findClip (tracks stateA) ''a'' = Some (0, 0)
   \<and> findIndex (\<lambda>t. track_id t = ''audio-track-1'') (tracks stateA) = Some 1
   \<and> track_type (tracks stateA ! 1) = AudioTrack
   \<and> track_type (tracks stateA ! 0) = VideoTrack
   \<and> editorReducer ''u2'' stateA (MOVE_CLIP ''a'' 5 (Some ''audio-track-1''))
       = (saveToHistory stateA) \<lparr> duration := calculateDuration (tracks stateA) \<rparr>
   \<and> tracks (editorReducer ''u2'' stateA (MOVE_CLIP ''a'' 5 (Some ''audio-track-1'')))
       = tracks stateA
   \<and> length (past (history stateA)) = 1
   \<and> length (past (history
        (editorReducer ''u2'' stateA (MOVE_CLIP ''a'' 5 (Some ''audio-track-1''))))) = 2"
proof -
  have f: "findClip (tracks stateA) ''a'' = Some (0, 0)"
    by (simp add: eval_defs)
  have n: "''audio-track-1'' \<noteq> []" "''audio-track-1'' \<noteq> track_id (tracks stateA ! 0)"
    by (simp_all add: eval_defs)
  have t: "findIndex (\<lambda>t. track_id t = ''audio-track-1'') (tracks stateA) = Some 1"
    by (simp add: eval_defs)
  have k: "track_type (tracks stateA ! 1) = AudioTrack"
    "track_type (tracks stateA ! 0) = VideoTrack"
    by (simp_all add: eval_defs)
  have k': "track_type (tracks stateA ! 1) \<noteq> track_type (tracks stateA ! 0)"
    using k by simp
  have h: "length (past (history stateA)) = 1"
    "length (past (history (saveToHistory stateA))) = 2"
    by (simp_all add: eval_defs)
  note m = cross_kind_move_rejected [OF f n t k', of "''u2''" 5]
  from m h(2) have h2: "length (past (history
        (editorReducer ''u2'' stateA (MOVE_CLIP ''a'' 5 (Some ''audio-track-1''))))) = 2"
    by simp
  from m f t k h(1) h2 show ?thesis by blast
qed

subsection \<open>Duration and playhead\<close>

lemma clipMax_ge: "maxEnd \<le> clipMax clip maxEnd"
  by (simp add: clipMax_def Let_def)

lemma fold_clipMax_ge: "maxEnd \<le> fold clipMax cs maxEnd"
proof (induction cs arbitrary: maxEnd)
  case Nil
  then show ?case by simp
next
  case (Cons c cs)
  have "maxEnd \<le> clipMax c maxEnd" by (rule clipMax_ge)
  also have "\<dots> \<le> fold clipMax cs (clipMax c maxEnd)" by (rule Cons.IH)
  finally show ?case by simp
qed

lemma fold_tracks_ge:
  "maxEnd \<le> fold (\<lambda>track m. fold clipMax (track_clips track) m) ts maxEnd"
proof (induction ts arbitrary: maxEnd)
  case Nil
  then show ?case by simp
next
  case (Cons t ts)
  have "maxEnd \<le> fold clipMax (track_clips t) maxEnd" by (rule fold_clipMax_ge)
  also have "\<dots> \<le> fold (\<lambda>track m. fold clipMax (track_clips track) m) ts
                       (fold clipMax (track_clips t) maxEnd)" by (rule Cons.IH)
  finally show ?case by simp
qed

lemma calculateDuration_nonneg: "0 \<le> calculateDuration ts"
  unfolding calculateDuration_def by (rule fold_tracks_ge)

lemma nonneg_step: "nonneg s \<Longrightarrow> nonneg (editorReducer uuid s a)"
  by (cases a)
     (auto simp: nonneg_def Let_def calculateDuration_nonneg initialState_def
           split: option.splits prod.splits)

lemma nonneg_dispatchAll: "nonneg s \<Longrightarrow> nonneg (dispatchAll s steps)"
proof (induction steps arbitrary: s)
  case Nil
  then show ?case by simp
next
  case (Cons step steps)
  obtain uuid a where "step = (uuid, a)" by (cases step)
  with Cons show ?case by (simp add: nonneg_step)
qed

lemma calculateDuration_clips:
  "map track_clips ts' = map track_clips ts \<Longrightarrow> calculateDuration ts' = calculateDuration ts"
proof -
  assume eq: "map track_clips ts' = map track_clips ts"
  have "\<And>xs. calculateDuration xs = fold (\<lambda>cs m. fold clipMax cs m) (map track_clips xs) 0"
    by (simp add: calculateDuration_def fold_map comp_def)
  with eq show ?thesis by simp
qed

lemma withTrack_clips:
  assumes "\<And>t. track_clips (f t) = track_clips t"
  shows "calculateDuration (withTrack trackId f ts) = calculateDuration ts"
proof (cases "findIndex (\<lambda>t. track_id t = trackId) ts")
  case None
  then show ?thesis by (simp add: withTrack_def)
next
  case (Some i)
  from findIndex_Some [OF Some] have i: "i < length ts" by simp
  have "map track_clips (ts[i := f (ts ! i)]) = (map track_clips ts)[i := track_clips (ts ! i)]"
    by (simp add: map_update assms)
  also have "\<dots> = map track_clips ts"
    using i by (simp add: list_update_same_conv)
  finally have "calculateDuration (ts[i := f (ts ! i)]) = calculateDuration ts"
    by (rule calculateDuration_clips)
  with Some show ?thesis by (simp add: withTrack_def)
qed

text \<open>
  ADD\_TRACK, REMOVE\_TRACK and SPLIT\_CLIP leave the stored duration as it is, whatever
  they do to the tracks.
\<close>

lemma stored_duration_kept:
  "skipsRecompute a \<Longrightarrow> duration (editorReducer uuid s a) = duration s"
  by (cases a) (auto simp: skipsRecompute_def Let_def split: option.splits prod.splits)

text \<open>
  Every other action keeps the stored duration equal to the duration recomputed from
  the tracks.
\<close>

lemma duration_kept_recomputed:
  assumes inv: "duration s = calculateDuration (tracks s)"
    and other: "\<not> skipsRecompute a"
  shows "duration (editorReducer uuid s a) = calculateDuration (tracks (editorReducer uuid s a))"
proof (cases a)
  case RESET
  then show ?thesis by (simp add: initialState_def calculateDuration_def)
qed (insert inv other,
     auto simp: Let_def skipsRecompute_def withTrack_clips split: option.splits prod.splits)

text \<open>
  SPLIT\_CLIP recomputes nothing either. On doubles the end of the second half,
  \<open>splitPoint + (duration - (splitPoint - startTime))\<close>, need not be the end of the clip
  that was split: after the split of the clip of duration 0.9 at 0.3 the stored
  duration is 0.9 and the recomputed one 0.9000000000000001.
\<close>

lemma split_rounding_stale_duration:
  "duration stateNine = calculateDuration (tracks stateNine)
   \<and> duration (editorReducer ''u2'' stateNine (SPLIT_CLIP ''n'' (toDouble (3 / 10))))
       = toDouble (9 / 10)
   \<and> calculateDuration
        (tracks (editorReducer ''u2'' stateNine (SPLIT_CLIP ''n'' (toDouble (3 / 10)))))
       = 8106479329266894 / 2 ^ 53
   \<and> toDouble (9 / 10) = 8106479329266893 / 2 ^ 53"
  by (simp add: eval_defs)

text \<open>
  Claim C1 says that after every operation the stored duration equals
  \<open>calculateDuration(tracks)\<close>. ADD\_TRACK and REMOVE\_TRACK change the tracks and keep
  the stored duration. From the initial state, adding clip A (duration 5) to the
  video track and then removing that track leaves the stored duration at 5 over
  tracks whose recomputed duration is 0; adding a track that holds clip A leaves the
  stored duration at 0 over tracks whose recomputed duration is 5.
\<close>

theorem track_edits_keep_stale_duration:
  "duration (dispatchAll initialState
       [(''u1'', ADD_CLIP ''video-track-1'' clipA), (''u2'', REMOVE_TRACK ''video-track-1'')]) = 5
   \<and> calculateDuration (tracks (dispatchAll initialState
       [(''u1'', ADD_CLIP ''video-track-1'' clipA), (''u2'', REMOVE_TRACK ''video-track-1'')])) = 0
   \<and> duration (dispatchAll initialState [(''u1'', ADD_TRACK videoTrack2)]) = 0
   \<and> calculateDuration (tracks (dispatchAll initialState [(''u1'', ADD_TRACK videoTrack2)])) = 5"
  by (simp add: eval_defs)

text \<open>
  Claim C9 says that \<open>0 \<le> playhead \<le> duration\<close> holds in every state reachable from
  the initial state. With clip A (duration 5) on the video track and the playhead set
  to 5, removing the clip brings the duration to 0 and leaves the playhead at 5.
\<close>

theorem playhead_exceeds_duration_counterexample:
  "playhead (dispatchAll initialState
       [(''u1'', ADD_CLIP ''video-track-1'' clipA), (''u2'', SET_PLAYHEAD 5),
        (''u3'', REMOVE_CLIP ''a'')]) = 5
   \<and> duration (dispatchAll initialState
       [(''u1'', ADD_CLIP ''video-track-1'' clipA), (''u2'', SET_PLAYHEAD 5),
        (''u3'', REMOVE_CLIP ''a'')]) = 0
   \<and> \<not> (playhead (dispatchAll initialState
       [(''u1'', ADD_CLIP ''video-track-1'' clipA), (''u2'', SET_PLAYHEAD 5),
        (''u3'', REMOVE_CLIP ''a'')])
        \<le> duration (dispatchAll initialState
       [(''u1'', ADD_CLIP ''video-track-1'' clipA), (''u2'', SET_PLAYHEAD 5),
        (''u3'', REMOVE_CLIP ''a'')]))"
  by (simp add: eval_defs)

text \<open>
  Claim C9, amended. In every state reachable from the initial state by any sequence
  of actions, \<open>0 \<le> playhead\<close> and \<open>0 \<le> duration\<close>. Only SET\_PLAYHEAD and RESET write the
  playhead, and \<open>playhead \<le> duration\<close> holds in the state right after either of them;
  every other action leaves the playhead as it is. Hence an action applied to a
  reachable state with \<open>playhead \<le> duration\<close> gives a state with
  \<open>playhead \<le> duration\<close> whenever it does not lower the stored duration.
\<close>

theorem playhead_bounds:
  "(let s = dispatchAll initialState steps;
        s' = editorReducer uuid s a
    in 0 \<le> playhead s
     \<and> 0 \<le> duration s
     \<and> (writesPlayhead a \<longrightarrow> playhead s' \<le> duration s')
     \<and> (\<not> writesPlayhead a \<longrightarrow> playhead s' = playhead s)
     \<and> (playhead s \<le> duration s \<and> duration s \<le> duration s' \<longrightarrow> playhead s' \<le> duration s'))"
proof -
  define s where "s = dispatchAll initialState steps"
  define s' where "s' = editorReducer uuid s a"
  have "nonneg initialState" by (simp add: nonneg_def initialState_def)
  then have n: "nonneg s" unfolding s_def by (rule nonneg_dispatchAll)
  then have n': "nonneg s'" unfolding s'_def by (rule nonneg_step)
  have w: "writesPlayhead a \<Longrightarrow> playhead s' \<le> duration s'"
    using n unfolding s'_def
    by (cases a) (auto simp: writesPlayhead_def nonneg_def initialState_def)
  have k: "\<not> writesPlayhead a \<Longrightarrow> playhead s' = playhead s"
    unfolding s'_def
    by (cases a) (auto simp: writesPlayhead_def Let_def split: option.splits prod.splits)
  have "playhead s \<le> duration s \<Longrightarrow> duration s \<le> duration s' \<Longrightarrow> playhead s' \<le> duration s'"
    using w k by (cases "writesPlayhead a") auto
  with n w k show ?thesis
    unfolding Let_def s_def [symmetric] s'_def [symmetric] by (auto simp: nonneg_def)
qed

text \<open>
  Claim C9, amended, at concrete inputs. After adding clip A (duration 5) and setting
  the playhead to 5, adding clip B (which raises the duration to 8) leaves the
  playhead at 5, within the duration; SET\_PLAYHEAD 9 clamps the playhead to 5; and
  removing clip A, which lowers the duration to 0, leaves the playhead at 5.
\<close>

theorem playhead_bounds_witness:
  "playhead (dispatchAll initialState
       [(''u1'', ADD_CLIP ''video-track-1'' clipA), (''u2'', SET_PLAYHEAD 5)]) = 5
   \<and> duration (dispatchAll initialState
       [(''u1'', ADD_CLIP ''video-track-1'' clipA), (''u2'', SET_PLAYHEAD 5)]) = 5
   \<and> duration (editorReducer ''u3'' (dispatchAll initialState
       [(''u1'', ADD_CLIP ''video-track-1'' clipA), (''u2'', SET_PLAYHEAD 5)])
          (ADD_CLIP ''video-track-1'' clipB)) = 8
   \<and> playhead (editorReducer ''u3'' (dispatchAll initialState
       [(''u1'', ADD_CLIP ''video-track-1'' clipA), (''u2'', SET_PLAYHEAD 5)])
          (ADD_CLIP ''video-track-1'' clipB)) = 5
   \<and> playhead (editorReducer ''u3'' (dispatchAll initialState
       [(''u1'', ADD_CLIP ''video-track-1'' clipA), (''u2'', SET_PLAYHEAD 5)])
          (ADD_CLIP ''video-track-1'' clipB))
       \<le> duration (editorReducer ''u3'' (dispatchAll initialState
       [(''u1'', ADD_CLIP ''video-track-1'' clipA), (''u2'', SET_PLAYHEAD 5)])
          (ADD_CLIP ''video-track-1'' clipB))
   \<and> playhead (editorReducer ''u3'' (dispatchAll initialState
       [(''u1'', ADD_CLIP ''video-track-1'' clipA), (''u2'', SET_PLAYHEAD 5)])
          (SET_PLAYHEAD 9))
       \<le> duration (editorReducer ''u3'' (dispatchAll initialState
       [(''u1'', ADD_CLIP ''video-track-1'' clipA), (''u2'', SET_PLAYHEAD 5)])
          (SET_PLAYHEAD 9))
   \<and> playhead (editorReducer ''u3'' (dispatchAll initialState
       [(''u1'', ADD_CLIP ''video-track-1'' clipA), (''u2'', SET_PLAYHEAD 5)])
          (REMOVE_CLIP ''a'')) = 5"
proof -
  let ?s = "dispatchAll initialState
       [(''u1'', ADD_CLIP ''video-track-1'' clipA), (''u2'', SET_PLAYHEAD 5)]"
  have p: "playhead ?s = 5" and d: "duration ?s = 5"
    by (simp_all add: eval_defs)
  have d': "duration (editorReducer ''u3'' ?s (ADD_CLIP ''video-track-1'' clipB)) = 8"
    by (simp add: eval_defs)
  have nw: "\<not> writesPlayhead (ADD_CLIP ''video-track-1'' clipB)"
    "\<not> writesPlayhead (REMOVE_CLIP ''a'')" "writesPlayhead (SET_PLAYHEAD 9)"
    by (simp_all add: writesPlayhead_def)
  have le: "playhead ?s \<le> duration ?s"
    "duration ?s \<le> duration (editorReducer ''u3'' ?s (ADD_CLIP ''video-track-1'' clipB))"
    unfolding p d d' by simp_all
  have a: "playhead (editorReducer ''u3'' ?s (ADD_CLIP ''video-track-1'' clipB)) = playhead ?s"
    "playhead (editorReducer ''u3'' ?s (ADD_CLIP ''video-track-1'' clipB))
       \<le> duration (editorReducer ''u3'' ?s (ADD_CLIP ''video-track-1'' clipB))"
    using playhead_bounds [of "[(''u1'', ADD_CLIP ''video-track-1'' clipA), (''u2'', SET_PLAYHEAD 5)]"
        "''u3''" "ADD_CLIP ''video-track-1'' clipB"] nw(1) le
    unfolding Let_def by blast+
  have b: "playhead (editorReducer ''u3'' ?s (SET_PLAYHEAD 9))
       \<le> duration (editorReducer ''u3'' ?s (SET_PLAYHEAD 9))"
    using playhead_bounds [of "[(''u1'', ADD_CLIP ''video-track-1'' clipA), (''u2'', SET_PLAYHEAD 5)]"
        "''u3''" "SET_PLAYHEAD 9"] nw(3)
    unfolding Let_def by blast
  have c: "playhead (editorReducer ''u3'' ?s (REMOVE_CLIP ''a'')) = playhead ?s"
    using playhead_bounds [of "[(''u1'', ADD_CLIP ''video-track-1'' clipA), (''u2'', SET_PLAYHEAD 5)]"
        "''u3''" "REMOVE_CLIP ''a''"] nw(2)
    unfolding Let_def by blast
  from p d d' a b c show ?thesis by simp
qed

section \<open>Properties of the export route\<close>

lemmas run_defs = exportHandler_def exportRun_def exportTry_def finishExport_def
  concatStage_def subtitleStage_def uploadStage_def cleanup_def downloadFile_def writeFile_def
  runFFmpeg_def processArgs_def subtitleArgs_def wantsSubtitleFile_def subtitleStyle_def Let_def

lemmas input_defs = exportClipA_def exportClipB_def exportAB_def exportABSubtitled_def
  worldOk_def worldNarrationBFails_def emptySys_def

subsection \<open>Effects of the steps\<close>

lemma emit_fields [simp]:
  "files (emit e st) = files st"
  "emitted (emit e st) = emitted st @ [e]"
  by (simp_all add: emit_def)

lemma createFile_fields [simp]:
  "files (createFile f st) = List.insert f (files st)"
  "emitted (createFile f st) = emitted st"
  by (simp_all add: createFile_def)

lemma unlink_fields [simp]:
  "files (unlink w f st) = (if unlinkOk w f then removeAll f (files st) else files st)"
  "emitted (unlink w f st) = emitted st"
  by (simp_all add: unlink_def)

lemma statuses_emit [simp]:
  "statuses (emit (ExportProgress p s) st) = statuses st @ [s]"
  "statuses (emit (ExportCompleted i u) st) = statuses st"
  "statuses (emit (ExportFailed m) st) = statuses st"
  by (simp_all add: statuses_def)

lemma statuses_emitted: "emitted st' = emitted st \<Longrightarrow> statuses st' = statuses st"
  by (simp add: statuses_def)

lemma writeFile_emitted: "writeFile w f st = (r, st') \<Longrightarrow> emitted st' = emitted st"
  by (auto simp: writeFile_def split: option.splits)

lemma downloadFile_emitted: "downloadFile w url f st = (r, st') \<Longrightarrow> emitted st' = emitted st"
  by (auto simp: downloadFile_def split: option.splits dest: writeFile_emitted)

lemma runFFmpeg_emitted: "runFFmpeg w args st = (r, st') \<Longrightarrow> emitted st' = emitted st"
  by (auto simp: runFFmpeg_def split: option.splits)

lemma writeFile_statuses: "writeFile w f st = (r, st') \<Longrightarrow> statuses st' = statuses st"
  by (auto dest: writeFile_emitted statuses_emitted)

lemma runFFmpeg_statuses: "runFFmpeg w args st = (r, st') \<Longrightarrow> statuses st' = statuses st"
  by (auto dest: runFFmpeg_emitted statuses_emitted)

lemma cleanupDownloaded_emitted [simp]: "emitted (cleanupDownloaded w ds st) = emitted st"
  by (induction w ds st rule: cleanupDownloaded.induct) (auto simp: Let_def split: option.splits)

lemma fold_unlink_emitted [simp]: "emitted (fold (unlink w) fs st) = emitted st"
  by (induction fs arbitrary: st) auto

lemma cleanup_emitted [simp]: "emitted (cleanup w ds ps sp st) = emitted st"
  by (simp add: cleanup_def Let_def split: option.splits)

lemma cleanup_statuses [simp]: "statuses (cleanup w ds ps sp st) = statuses st"
  by (simp add: statuses_def)


subsection \<open>The status labels of a run\<close>

lemma downloadLoop_statuses:
  "downloadLoop w n clips i acc st = (r, st') \<Longrightarrow>
     (case r of
        Inr ds \<Rightarrow> statuses st' = statuses st @ replicate (length clips) ''downloading''
      | Inl e \<Rightarrow> (\<exists>k<length clips. statuses st' = statuses st @ replicate k ''downloading''))"
proof (induction clips arbitrary: i acc st)
  case Nil
  then show ?case by auto
next
  case (Cons clip rest)
  let ?audioPath = "case ec_audioUrl clip of None \<Rightarrow> None
                    | Some u \<Rightarrow> if u \<noteq> [] then Some (VoiceoverFile i) else None"
  obtain r1 st1 where d1: "downloadFile w (ec_videoUrl clip) (VideoFile i) st = (r1, st1)"
    by fastforce
  then have e1: "statuses st1 = statuses st"
    by (auto dest: downloadFile_emitted statuses_emitted)
  show ?case
  proof (cases r1)
    case (Inl e)
    with Cons.prems d1 have "r = Inl e" "st' = st1" by (simp_all add: Let_def)
    with e1 show ?thesis by auto
  next
    case (Inr u1)
    obtain r2 st2 where d2:
      "(case ?audioPath of None \<Rightarrow> (Inr (), st1)
        | Some ap \<Rightarrow> downloadFile w (the (ec_audioUrl clip)) ap st1) = (r2, st2)"
      by fastforce
    then have e2: "statuses st2 = statuses st1"
      by (cases ?audioPath) (auto dest: downloadFile_emitted statuses_emitted)
    show ?thesis
    proof (cases r2)
      case (Inl e)
      with Cons.prems d1 d2 \<open>r1 = Inr u1\<close> have "r = Inl e" "st' = st2" by (simp_all add: Let_def)
      with e1 e2 show ?thesis by auto
    next
      case (Inr u2)
      let ?st3 = "emit (ExportProgress (5 + \<lfloor>toDouble (toDouble (real i / real n) * 15)\<rfloor>) ''downloading'') st2"
      from Cons.prems d1 d2 \<open>r1 = Inr u1\<close> Inr
      have rec: "downloadLoop w n rest (i + 1) (acc @ [(VideoFile i, ?audioPath, clip)]) ?st3 = (r, st')"
        by (simp add: Let_def)
      have s3: "statuses ?st3 = statuses st @ [''downloading'']"
        using e1 e2 by simp
      from Cons.IH [OF rec] s3 show ?thesis
        by (cases r) (auto simp: replicate_append_same)
    qed
  qed
qed

lemma processLoop_statuses:
  "processLoop w audioMix n ds i acc st = (r, st') \<Longrightarrow>
     (case r of
        Inr ps \<Rightarrow> statuses st' = statuses st @ replicate (length ds) ''processing''
      | Inl e \<Rightarrow> (\<exists>k<length ds. statuses st' = statuses st @ replicate k ''processing''))"
proof (induction ds arbitrary: i acc st)
  case Nil
  then show ?case by auto
next
  case (Cons d rest)
  obtain r1 st1 where d1: "runFFmpeg w (processArgs audioMix i d) st = (r1, st1)"
    by fastforce
  then have e1: "statuses st1 = statuses st"
    by (auto dest: runFFmpeg_emitted statuses_emitted)
  show ?case
  proof (cases r1)
    case (Inl e)
    with Cons.prems d1 have "r = Inl e" "st' = st1" by simp_all
    with e1 show ?thesis by auto
  next
    case (Inr u1)
    let ?st2 = "emit (ExportProgress (25 + \<lfloor>toDouble (toDouble (real i / real n) * 40)\<rfloor>) ''processing'') st1"
    from Cons.prems d1 Inr
    have rec: "processLoop w audioMix n rest (i + 1) (acc @ [ProcessedFile i]) ?st2 = (r, st')"
      by simp
    have s2: "statuses ?st2 = statuses st @ [''processing'']"
      using e1 by simp
    from Cons.IH [OF rec] s2 show ?thesis
      by (cases r) (auto simp: replicate_append_same)
  qed
qed

lemma downloadLoop_length:
  "downloadLoop w n clips i acc st = (Inr ds, st') \<Longrightarrow> length ds = length acc + length clips"
proof (induction clips arbitrary: i acc st)
  case Nil
  then show ?case by auto
next
  case (Cons clip rest)
  from Cons.prems show ?case
    by (auto simp: Let_def split: prod.splits sum.splits dest!: Cons.IH)
qed

lemma uploadStage_success:
  "uploadStage w exportId ds ps sp st = (Inr url, st') \<Longrightarrow>
     statuses st' = statuses st @ [''uploading'', ''completed'']
     \<and> last (emitted st') = ExportCompleted exportId url"
  by (auto simp: uploadStage_def Let_def split: option.splits sum.splits)

lemma uploadStage_failure:
  "uploadStage w exportId ds ps sp st = (Inl e, st') \<Longrightarrow>
     statuses st' = statuses st @ [''uploading'']"
  by (auto simp: uploadStage_def Let_def split: option.splits sum.splits)

lemma subtitleStage_success:
  "subtitleStage w exportId exportData ds ps sp st = (Inr url, st') \<Longrightarrow>
     statuses st' = statuses st @ [''encoding'', ''uploading'', ''completed'']
     \<and> last (emitted st') = ExportCompleted exportId url"
  by (auto simp: subtitleStage_def split: prod.splits sum.splits
           dest!: runFFmpeg_statuses uploadStage_success)

lemma subtitleStage_failure:
  "subtitleStage w exportId exportData ds ps sp st = (Inl e, st') \<Longrightarrow>
     statuses st' = statuses st @ [''encoding'']
     \<or> statuses st' = statuses st @ [''encoding'', ''uploading'']"
  by (auto simp: subtitleStage_def split: prod.splits sum.splits
           dest!: runFFmpeg_statuses uploadStage_failure)

lemma concatStage_success:
  "concatStage w exportId exportData ds ps sp st = (Inr url, st') \<Longrightarrow>
     statuses st' = statuses st @ [''encoding'', ''uploading'', ''completed'']
     \<and> last (emitted st') = ExportCompleted exportId url"
  by (auto simp: concatStage_def split: prod.splits sum.splits
           dest!: writeFile_statuses runFFmpeg_statuses subtitleStage_success)

lemma concatStage_failure:
  "concatStage w exportId exportData ds ps sp st = (Inl e, st') \<Longrightarrow>
     statuses st' = statuses st
     \<or> statuses st' = statuses st @ [''encoding'']
     \<or> statuses st' = statuses st @ [''encoding'', ''uploading'']"
  by (auto simp: concatStage_def split: prod.splits sum.splits
           dest!: writeFile_statuses runFFmpeg_statuses subtitleStage_failure)

lemma finishExport_success:
  "finishExport w exportId exportData ds ps st = (Inr url, st') \<Longrightarrow>
     statuses st' = statuses st @ [''encoding'', ''encoding'', ''uploading'', ''completed'']
     \<and> last (emitted st') = ExportCompleted exportId url"
  by (auto simp: finishExport_def Let_def split: if_splits prod.splits sum.splits
           dest!: writeFile_statuses concatStage_success)

lemma finishExport_failure:
  "finishExport w exportId exportData ds ps st = (Inl e, st') \<Longrightarrow>
     statuses st' = statuses st @ [''encoding'']
     \<or> statuses st' = statuses st @ [''encoding'', ''encoding'']
     \<or> statuses st' = statuses st @ [''encoding'', ''encoding'', ''uploading'']"
  by (auto simp: finishExport_def Let_def split: if_splits prod.splits sum.splits
           dest!: writeFile_statuses concatStage_failure)

lemma strict_prefix_split: "ys = xs @ zs \<Longrightarrow> zs \<noteq> [] \<Longrightarrow> strict_prefix xs ys"
  by (auto simp: strict_prefix_def)

lemma replicate_split: "k \<le> n \<Longrightarrow> replicate n x = replicate k x @ replicate (n - k) x"
  by (simp add: replicate_add [symmetric])

lemma exportTry_success:
  assumes "exportTry w exportId exportData st0 = (Inr url, st)"
  shows "statuses st = statuses st0 @ statusSequence (length (ed_clips exportData))
       \<and> last (emitted st) = ExportCompleted exportId url"
proof -
  let ?n = "length (ed_clips exportData)"
  from assms obtain ds st1 ps st2 where
    dl: "downloadLoop w ?n (ed_clips exportData) 0 [] (emit (ExportProgress 5 ''downloading'') st0)
           = (Inr ds, st1)"
    and pl: "processLoop w (ed_audioMix exportData) (length ds) ds 0 []
               (emit (ExportProgress 25 ''processing'') st1) = (Inr ps, st2)"
    and fin: "finishExport w exportId exportData ds ps st2 = (Inr url, st)"
    by (auto simp: exportTry_def split: prod.splits sum.splits)
  from downloadLoop_length [OF dl] have len: "length ds = ?n" by simp
  from downloadLoop_statuses [OF dl]
  have s1: "statuses st1 = statuses st0 @ replicate (Suc ?n) ''downloading''"
    by (simp add: replicate_append_same)
  from processLoop_statuses [OF pl] len
  have s2: "statuses st2 = statuses st1 @ replicate (Suc ?n) ''processing''"
    by (simp add: replicate_append_same)
  from finishExport_success [OF fin] s1 s2 show ?thesis
    by (simp add: statusSequence_def)
qed

lemma exportTry_failure:
  assumes "exportTry w exportId exportData st0 = (Inl e, st)"
  shows "\<exists>xs. statuses st = statuses st0 @ xs \<and> xs \<noteq> []
             \<and> strict_prefix xs (statusSequence (length (ed_clips exportData)))"
proof -
  let ?n = "length (ed_clips exportData)"
  let ?D = "replicate (Suc ?n) ''downloading''"
  let ?P = "replicate (Suc ?n) ''processing''"
  let ?C = "[''encoding'', ''encoding'', ''uploading'', ''completed'']"
  obtain r1 st1 where
    dl: "downloadLoop w ?n (ed_clips exportData) 0 [] (emit (ExportProgress 5 ''downloading'') st0)
           = (r1, st1)"
    by fastforce
  show ?thesis
  proof (cases r1)
    case (Inl e1)
    with assms dl have "st = st1" by (simp add: exportTry_def)
    moreover from downloadLoop_statuses [OF dl] Inl obtain k where
      k: "k < ?n" "statuses st1 = statuses st0 @ replicate (Suc k) ''downloading''"
      by (auto simp: replicate_append_same)
    moreover have "statusSequence ?n
        = replicate (Suc k) ''downloading'' @ (replicate (Suc ?n - Suc k) ''downloading'' @ ?P @ ?C)"
      using k(1) replicate_split [of "Suc k" "Suc ?n" "''downloading''"]
      by (simp add: statusSequence_def)
    then have "strict_prefix (replicate (Suc k) ''downloading'') (statusSequence ?n)"
      by (rule strict_prefix_split) simp
    ultimately show ?thesis by auto
  next
    case (Inr ds)
    from downloadLoop_length [OF dl [unfolded Inr]] have len: "length ds = ?n" by simp
    from downloadLoop_statuses [OF dl] Inr
    have s1: "statuses st1 = statuses st0 @ ?D"
      by (simp add: replicate_append_same)
    obtain r2 st2 where
      pl: "processLoop w (ed_audioMix exportData) (length ds) ds 0 []
             (emit (ExportProgress 25 ''processing'') st1) = (r2, st2)"
      by fastforce
    show ?thesis
    proof (cases r2)
      case (Inl e2)
      with assms dl pl \<open>r1 = Inr ds\<close> have "st = st2" by (simp add: exportTry_def)
      moreover from processLoop_statuses [OF pl] Inl len s1 obtain k where
        k: "k < ?n" "statuses st2 = statuses st0 @ (?D @ replicate (Suc k) ''processing'')"
        by (auto simp: replicate_append_same)
      moreover have "statusSequence ?n
          = (?D @ replicate (Suc k) ''processing'')
              @ (replicate (Suc ?n - Suc k) ''processing'' @ ?C)"
        using k(1) replicate_split [of "Suc k" "Suc ?n" "''processing''"]
        by (simp add: statusSequence_def)
      then have "strict_prefix (?D @ replicate (Suc k) ''processing'') (statusSequence ?n)"
        by (rule strict_prefix_split) simp
      ultimately show ?thesis by auto
    next
      case (Inr ps)
      with assms dl pl \<open>r1 = Inr ds\<close>
      have fin: "finishExport w exportId exportData ds ps st2 = (Inl e, st)"
        by (simp add: exportTry_def)
      from processLoop_statuses [OF pl] Inr len s1
      have s2: "statuses st2 = statuses st0 @ ?D @ ?P"
        by (simp add: replicate_append_same)
      have a: "strict_prefix (?D @ ?P @ [''encoding'']) (statusSequence ?n)"
        by (rule strict_prefix_split [where zs = "[''encoding'', ''uploading'', ''completed'']"])
           (simp_all add: statusSequence_def)
      have b: "strict_prefix (?D @ ?P @ [''encoding'', ''encoding'']) (statusSequence ?n)"
        by (rule strict_prefix_split [where zs = "[''uploading'', ''completed'']"])
           (simp_all add: statusSequence_def)
      have c: "strict_prefix (?D @ ?P @ [''encoding'', ''encoding'', ''uploading''])
                 (statusSequence ?n)"
        by (rule strict_prefix_split [where zs = "[''completed'']"])
           (simp_all add: statusSequence_def)
      from finishExport_failure [OF fin]
      consider "statuses st = statuses st0 @ (?D @ ?P @ [''encoding''])"
        | "statuses st = statuses st0 @ (?D @ ?P @ [''encoding'', ''encoding''])"
        | "statuses st = statuses st0 @ (?D @ ?P @ [''encoding'', ''encoding'', ''uploading''])"
        using s2 by auto
      then show ?thesis
      proof cases
        case 1
        with a show ?thesis by blast
      next
        case 2
        with b show ?thesis by blast
      next
        case 3
        with c show ?thesis by blast
      qed
    qed
  qed
qed

lemma run_ok:
  "fst (exportRun worldOk ''export-1'' exportAB emptySys)
     = SendSuccess ''export-1'' ''https://storage.example/signed'' ''completed'' False"
  "files (snd (exportRun worldOk ''export-1'' exportAB emptySys)) = []"
  "statuses (snd (exportRun worldOk ''export-1'' exportAB emptySys)) =
     [''downloading'', ''downloading'', ''downloading'', ''processing'', ''processing'',
      ''processing'', ''encoding'', ''encoding'', ''uploading'', ''completed'']"
  by (simp_all add: run_defs input_defs statuses_def)

lemma run_ok_subtitled:
  "fst (exportRun worldOk ''export-1'' exportABSubtitled emptySys)
     = SendSuccess ''export-1'' ''https://storage.example/signed'' ''completed'' False"
  "files (snd (exportRun worldOk ''export-1'' exportABSubtitled emptySys)) = []"
  "statuses (snd (exportRun worldOk ''export-1'' exportABSubtitled emptySys)) =
     [''downloading'', ''downloading'', ''downloading'', ''processing'', ''processing'',
      ''processing'', ''encoding'', ''encoding'', ''uploading'', ''completed'']"
  "wantsSubtitleFile exportABSubtitled"
  "subtitleArgs exportABSubtitled (Some SubtitlesSrt)
     = SubtitleArgs ConcatOutputMp4 SubtitlesSrt ''FFFFFF'' OutputMp4"
  by (simp_all add: run_defs input_defs statuses_def)

lemma run_fail:
  "fst (exportRun worldNarrationBFails ''export-1'' exportAB emptySys)
     = SendError ''Failed to export video. Please try again.'' 500"
  "files (snd (exportRun worldNarrationBFails ''export-1'' exportAB emptySys))
     = [VideoFile 1, VoiceoverFile 0, VideoFile 0]"
  "emitted (snd (exportRun worldNarrationBFails ''export-1'' exportAB emptySys))
     = [ExportProgress 5 ''downloading'', ExportProgress 5 ''downloading'',
        ExportFailed ''Failed to download: Not Found'']"
  by (simp_all add: run_defs input_defs)

text \<open>
  A failure after each later stage label: in processing, in the concatenation, in the
  burn-in and in the upload. Each run ends with \<open>export:failed\<close>.
\<close>

lemma failure_at_each_stage:
  "emitted (snd (exportRun worldProcessingFails ''export-1'' exportAB emptySys))
     = [ExportProgress 5 ''downloading'', ExportProgress 5 ''downloading'',
        ExportProgress 12 ''downloading'', ExportProgress 25 ''processing'',
        ExportProgress 25 ''processing'', ExportFailed ''FFmpeg exited with code 1'']"
  "emitted (snd (exportRun worldConcatFails ''export-1'' exportAB emptySys))
     = [ExportProgress 5 ''downloading'', ExportProgress 5 ''downloading'',
        ExportProgress 12 ''downloading'', ExportProgress 25 ''processing'',
        ExportProgress 25 ''processing'', ExportProgress 45 ''processing'',
        ExportProgress 70 ''encoding'', ExportFailed ''FFmpeg exited with code 1'']"
  "emitted (snd (exportRun worldBurnFails ''export-1'' exportABSubtitled emptySys))
     = [ExportProgress 5 ''downloading'', ExportProgress 5 ''downloading'',
        ExportProgress 12 ''downloading'', ExportProgress 25 ''processing'',
        ExportProgress 25 ''processing'', ExportProgress 45 ''processing'',
        ExportProgress 70 ''encoding'', ExportProgress 85 ''encoding'',
        ExportFailed ''FFmpeg exited with code 1'']"
  "emitted (snd (exportRun worldUploadFails ''export-1'' exportAB emptySys))
     = [ExportProgress 5 ''downloading'', ExportProgress 5 ''downloading'',
        ExportProgress 12 ''downloading'', ExportProgress 25 ''processing'',
        ExportProgress 25 ''processing'', ExportProgress 45 ''processing'',
        ExportProgress 70 ''encoding'', ExportProgress 85 ''encoding'',
        ExportProgress 92 ''uploading'', ExportFailed ''upload failed'']"
  by (simp_all add: run_defs input_defs double_eval worldProcessingFails_def
        worldConcatFails_def worldBurnFails_def worldUploadFails_def)

text \<open>
  Claim C7 says that the stage labels of a successful run follow exactly the order
  downloading, processing, concatenating, subtitle-burn only if subtitles are enabled,
  uploading, completed. The run of the two-clip request without subtitles succeeds and
  emits, repetitions dropped, downloading, processing, encoding, uploading, completed;
  the run of the same request with subtitles enabled, a style and one word, which
  burns the subtitles in, emits the very same labels. Neither sequence is the
  specification's order: no label tells the concatenation from the burn-in.
\<close>

theorem export_status_labels_counterexample:
  "fst (exportRun worldOk ''export-1'' exportAB emptySys)
     = SendSuccess ''export-1'' ''https://storage.example/signed'' ''completed'' False
   \<and> remdups_adj (statuses (snd (exportRun worldOk ''export-1'' exportAB emptySys)))
       = [''downloading'', ''processing'', ''encoding'', ''uploading'', ''completed'']
   \<and> remdups_adj (statuses (snd (exportRun worldOk ''export-1'' exportAB emptySys)))
       \<noteq> specStageOrder False
   \<and> fst (exportRun worldOk ''export-1'' exportABSubtitled emptySys)
       = SendSuccess ''export-1'' ''https://storage.example/signed'' ''completed'' False
   \<and> wantsSubtitleFile exportABSubtitled
   \<and> statuses (snd (exportRun worldOk ''export-1'' exportABSubtitled emptySys))
       = statuses (snd (exportRun worldOk ''export-1'' exportAB emptySys))
   \<and> remdups_adj (statuses (snd (exportRun worldOk ''export-1'' exportABSubtitled emptySys)))
       \<noteq> specStageOrder True"
  by (simp add: run_ok run_ok_subtitled specStageOrder_def)

text \<open>
  Claim C7, amended. With FFmpeg available, every run of the handler over \<open>n\<close> clips
  ends in one of three ways. If it answers \<open>sendSuccess\<close>, the status labels emitted
  are, in this order, \<open>n + 1\<close> times \<open>downloading\<close>, \<open>n + 1\<close> times \<open>processing\<close>,
  twice \<open>encoding\<close>, \<open>uploading\<close> and \<open>completed\<close>, whether or not subtitles are
  enabled, and the last event is \<open>export:completed\<close> with the export id and the url
  answered. If it answers \<open>sendError\<close>, the labels emitted are a non-empty proper
  prefix of that sequence, whatever the step that threw, and the last event is
  \<open>export:failed\<close>. If \<open>fs.mkdir\<close> of the work directory throws, which stands before
  the \<open>try\<close>, the exception leaves the handler and no event at all is emitted, neither
  a progress event nor \<open>export:failed\<close>.
\<close>

theorem export_status_sequence:
  "(exportHandler useDevMode True w exportId exportData st0
       = (SendSuccess eid url status isMock, st) \<longrightarrow>
      statuses st = statuses st0 @ statusSequence (length (ed_clips exportData))
      \<and> last (emitted st) = ExportCompleted exportId url)
   \<and> (exportHandler useDevMode True w exportId exportData st0 = (SendError msg code, st) \<longrightarrow>
      (\<exists>xs e. statuses st = statuses st0 @ xs \<and> xs \<noteq> []
          \<and> strict_prefix xs (statusSequence (length (ed_clips exportData)))
          \<and> last (emitted st) = ExportFailed e))
   \<and> (exportHandler useDevMode True w exportId exportData st0 = (Thrown err, st) \<longrightarrow>
      mkdirError w = Some err \<and> st = st0 \<and> emitted st = emitted st0)"
proof (cases "mkdirError w")
  case (Some e)
  then have "exportHandler useDevMode True w exportId exportData st0 = (Thrown e, st0)"
    by (simp add: exportHandler_def)
  with Some show ?thesis by simp
next
  case None
  then have h: "exportHandler useDevMode True w exportId exportData st0
                  = exportRun w exportId exportData st0"
    by (simp add: exportHandler_def)
  have ok: "exportRun w exportId exportData st0 = (SendSuccess eid url status isMock, st) \<longrightarrow>
      statuses st = statuses st0 @ statusSequence (length (ed_clips exportData))
      \<and> last (emitted st) = ExportCompleted exportId url"
  proof (rule impI)
    assume "exportRun w exportId exportData st0 = (SendSuccess eid url status isMock, st)"
    then have "exportTry w exportId exportData st0 = (Inr url, st)"
      by (auto simp: exportRun_def split: prod.splits sum.splits)
    then show "statuses st = statuses st0 @ statusSequence (length (ed_clips exportData))
      \<and> last (emitted st) = ExportCompleted exportId url"
      by (rule exportTry_success)
  qed
  have bad: "exportRun w exportId exportData st0 = (SendError msg code, st) \<longrightarrow>
      (\<exists>xs e. statuses st = statuses st0 @ xs \<and> xs \<noteq> []
          \<and> strict_prefix xs (statusSequence (length (ed_clips exportData)))
          \<and> last (emitted st) = ExportFailed e)"
  proof (rule impI)
    assume "exportRun w exportId exportData st0 = (SendError msg code, st)"
    then obtain e st1 where t: "exportTry w exportId exportData st0 = (Inl e, st1)"
      and st: "st = emit (ExportFailed e) st1"
      by (auto simp: exportRun_def split: prod.splits sum.splits)
    from exportTry_failure [OF t] st
    show "\<exists>xs e. statuses st = statuses st0 @ xs \<and> xs \<noteq> []
          \<and> strict_prefix xs (statusSequence (length (ed_clips exportData)))
          \<and> last (emitted st) = ExportFailed e"
      by auto
  qed
  have thrown: "exportRun w exportId exportData st0 \<noteq> (Thrown err, st)"
    by (auto simp: exportRun_def split: prod.splits sum.splits)
  from ok bad thrown show ?thesis
    unfolding h by blast
qed

text \<open>
  Claim C7, amended, at three concrete runs of the two-clip request: the run in which
  nothing fails; the run in which the narration of clip B cannot be downloaded, which
  stops after two \<open>downloading\<close> events with \<open>export:failed\<close>; and the run in which
  the work directory cannot be created, which emits nothing.
\<close>

theorem export_status_sequence_witness:
  "exportHandler False True worldOk ''export-1'' exportAB emptySys
     = (SendSuccess ''export-1'' ''https://storage.example/signed'' ''completed'' False,
        snd (exportHandler False True worldOk ''export-1'' exportAB emptySys))
   \<and> statuses (snd (exportHandler False True worldOk ''export-1'' exportAB emptySys))
       = statusSequence 2
   \<and> last (emitted (snd (exportHandler False True worldOk ''export-1'' exportAB emptySys)))
       = ExportCompleted ''export-1'' ''https://storage.example/signed''
   \<and> exportHandler False True worldNarrationBFails ''export-1'' exportAB emptySys
       = (SendError ''Failed to export video. Please try again.'' 500,
          snd (exportHandler False True worldNarrationBFails ''export-1'' exportAB emptySys))
   \<and> statuses (snd (exportHandler False True worldNarrationBFails ''export-1'' exportAB emptySys))
       = [''downloading'', ''downloading'']
   \<and> strict_prefix [''downloading'', ''downloading''] (statusSequence 2)
   \<and> last (emitted
        (snd (exportHandler False True worldNarrationBFails ''export-1'' exportAB emptySys)))
       = ExportFailed ''Failed to download: Not Found''
   \<and> exportHandler False True worldMkdirFails ''export-1'' exportAB emptySys
       = (Thrown ''EACCES: permission denied, mkdir'',
          snd (exportHandler False True worldMkdirFails ''export-1'' exportAB emptySys))
   \<and> emitted (snd (exportHandler False True worldMkdirFails ''export-1'' exportAB emptySys))
       = []"
proof -
  let ?ok = "exportHandler False True worldOk ''export-1'' exportAB emptySys"
  let ?bad = "exportHandler False True worldNarrationBFails ''export-1'' exportAB emptySys"
  let ?thr = "exportHandler False True worldMkdirFails ''export-1'' exportAB emptySys"
  have h: "?ok = exportRun worldOk ''export-1'' exportAB emptySys"
    "?bad = exportRun worldNarrationBFails ''export-1'' exportAB emptySys"
    by (simp_all add: exportHandler_def worldOk_def worldNarrationBFails_def)
  have r1: "?ok = (SendSuccess ''export-1'' ''https://storage.example/signed'' ''completed'' False,
                   snd ?ok)"
    unfolding h using run_ok(1) by (simp add: prod_eq_iff)
  have r2: "?bad = (SendError ''Failed to export video. Please try again.'' 500, snd ?bad)"
    unfolding h using run_fail(1) by (simp add: prod_eq_iff)
  have r3: "?thr = (Thrown ''EACCES: permission denied, mkdir'', snd ?thr)"
    by (simp add: exportHandler_def worldMkdirFails_def worldOk_def)
  have n: "length (ed_clips exportAB) = 2" "statuses emptySys = []" "emitted emptySys = []"
    by (simp_all add: exportAB_def emptySys_def statuses_def)
  from export_status_sequence [of False worldOk "''export-1''" exportAB emptySys "''export-1''"
      "''https://storage.example/signed''" "''completed''" False "snd ?ok"] r1 n
  have ok: "statuses (snd ?ok) = statusSequence 2
      \<and> last (emitted (snd ?ok)) = ExportCompleted ''export-1'' ''https://storage.example/signed''"
    by simp
  have s: "statuses (snd ?bad) = [''downloading'', ''downloading'']"
    "last (emitted (snd ?bad)) = ExportFailed ''Failed to download: Not Found''"
    unfolding h by (simp_all add: run_fail(3) statuses_def)
  from export_status_sequence [of False worldNarrationBFails "''export-1''" exportAB emptySys
      _ _ _ _ "snd ?bad" "''Failed to export video. Please try again.''" 500] r2 n s
  have bad: "strict_prefix [''downloading'', ''downloading''] (statusSequence 2)"
    by auto
  from export_status_sequence [of False worldMkdirFails "''export-1''" exportAB emptySys
      _ _ _ _ "snd ?thr" _ _ "''EACCES: permission denied, mkdir''"] r3 n
  have thr: "emitted (snd ?thr) = []"
    by simp
  from r1 r2 r3 ok s bad thr show ?thesis by blast
qed


subsection \<open>Scratch files\<close>

text \<open>
  On the path that answers \<open>sendSuccess\<close>, when every \<open>unlink\<close> succeeds, the
  cleanup block removes every file the run created: no file is left that was not
  there before the run.
\<close>

lemma downloadedFiles_append [simp]:
  "downloadedFiles (xs @ ys) = downloadedFiles xs \<union> downloadedFiles ys"
  by (auto simp: downloadedFiles_def)

lemma downloadedFiles_simps [simp]:
  "downloadedFiles [] = {}"
  "downloadedFiles ((videoPath, audioPath, clip) # ds)
     = insert videoPath (set_option audioPath \<union> downloadedFiles ds)"
  by (auto simp: downloadedFiles_def)

lemma writeFile_files: "writeFile w f st = (r, st') \<Longrightarrow> set (files st') \<subseteq> insert f (set (files st))"
  by (auto simp: writeFile_def split: option.splits)

lemma downloadFile_files:
  "downloadFile w url f st = (r, st') \<Longrightarrow> set (files st') \<subseteq> insert f (set (files st))"
  by (auto simp: downloadFile_def split: option.splits dest: writeFile_files)

lemma runFFmpeg_files:
  "runFFmpeg w args st = (r, st') \<Longrightarrow> set (files st') \<subseteq> insert (outputOf args) (set (files st))"
  by (auto simp: runFFmpeg_def split: option.splits)

lemma outputOf_processArgs [simp]: "outputOf (processArgs audioMix i d) = ProcessedFile i"
  by (cases d) (auto simp: processArgs_def Let_def split: option.splits)

lemma downloadLoop_files:
  "downloadLoop w n clips i acc st = (Inr ds, st') \<Longrightarrow>
     set (files st') \<subseteq> set (files st) \<union> downloadedFiles ds \<and> downloadedFiles acc \<subseteq> downloadedFiles ds"
proof (induction clips arbitrary: i acc st)
  case Nil
  then show ?case by auto
next
  case (Cons clip rest)
  let ?audioPath = "case ec_audioUrl clip of None \<Rightarrow> None
                    | Some u \<Rightarrow> if u \<noteq> [] then Some (VoiceoverFile i) else None"
  from Cons.prems obtain u1 st1 u2 st2 where
    d1: "downloadFile w (ec_videoUrl clip) (VideoFile i) st = (Inr u1, st1)"
    and d2: "(case ?audioPath of None \<Rightarrow> (Inr (), st1)
        | Some ap \<Rightarrow> downloadFile w (the (ec_audioUrl clip)) ap st1) = (Inr u2, st2)"
    and rec: "downloadLoop w n rest (i + 1) (acc @ [(VideoFile i, ?audioPath, clip)])
               (emit (ExportProgress (5 + \<lfloor>toDouble (toDouble (real i / real n) * 15)\<rfloor>) ''downloading'') st2)
                = (Inr ds, st')"
    by (auto simp: Let_def split: prod.splits sum.splits)
  from downloadFile_files [OF d1] have f1: "set (files st1) \<subseteq> insert (VideoFile i) (set (files st))" .
  from d2 have f2: "set (files st2) \<subseteq> set (files st1) \<union> set_option ?audioPath"
    by (cases ?audioPath) (auto dest: downloadFile_files)
  from Cons.IH [OF rec] f1 f2 show ?case
    by auto
qed

lemma processLoop_files:
  "processLoop w audioMix n ds i acc st = (Inr ps, st') \<Longrightarrow>
     set (files st') \<subseteq> set (files st) \<union> set ps \<and> set acc \<subseteq> set ps"
proof (induction ds arbitrary: i acc st)
  case Nil
  then show ?case by auto
next
  case (Cons d rest)
  from Cons.prems obtain u1 st1 where
    d1: "runFFmpeg w (processArgs audioMix i d) st = (Inr u1, st1)"
    and rec: "processLoop w audioMix n rest (i + 1) (acc @ [ProcessedFile i])
               (emit (ExportProgress (25 + \<lfloor>toDouble (toDouble (real i / real n) * 40)\<rfloor>) ''processing'') st1)
                = (Inr ps, st')"
    by (auto split: prod.splits sum.splits)
  from runFFmpeg_files [OF d1] have f1: "set (files st1) \<subseteq> insert (ProcessedFile i) (set (files st))"
    by simp
  from Cons.IH [OF rec] f1 show ?case
    by auto
qed

lemma cleanupDownloaded_files:
  "(\<And>f. unlinkOk w f) \<Longrightarrow>
     set (files (cleanupDownloaded w ds st)) = set (files st) - downloadedFiles ds"
  by (induction w ds st rule: cleanupDownloaded.induct)
     (auto simp: Let_def split: option.splits)

lemma fold_unlink_files:
  "(\<And>f. unlinkOk w f) \<Longrightarrow> set (files (fold (unlink w) fs st)) = set (files st) - set fs"
  by (induction fs arbitrary: st) auto

lemma cleanup_files:
  assumes "\<And>f. unlinkOk w f"
  shows "set (files (cleanup w ds ps sp st))
     = set (files st) - (downloadedFiles ds \<union> set ps
          \<union> {ConcatTxt, ConcatOutputMp4, OutputMp4} \<union> set_option sp)"
  using assms
  by (auto simp: cleanup_def Let_def cleanupDownloaded_files fold_unlink_files split: option.splits)

lemma uploadStage_files:
  assumes "\<And>f. unlinkOk w f"
    and "uploadStage w exportId ds ps sp st = (Inr url, st')"
  shows "set (files st') = set (files st) - (downloadedFiles ds \<union> set ps
          \<union> {ConcatTxt, ConcatOutputMp4, OutputMp4} \<union> set_option sp)"
  using assms(2) cleanup_files [OF assms(1)]
  by (auto simp: uploadStage_def Let_def split: option.splits sum.splits)

lemma outputOf_subtitleArgs [simp]: "outputOf (subtitleArgs exportData sp) = OutputMp4"
  by (auto simp: subtitleArgs_def split: option.splits)

lemma subtitleStage_files:
  assumes "\<And>f. unlinkOk w f"
    and "subtitleStage w exportId exportData ds ps sp st = (Inr url, st')"
  shows "set (files st') \<subseteq> set (files st) - (downloadedFiles ds \<union> set ps
          \<union> {ConcatTxt, ConcatOutputMp4, OutputMp4} \<union> set_option sp)"
proof -
  from assms(2) obtain u st1 where
    r: "runFFmpeg w (subtitleArgs exportData sp) (emit (ExportProgress 85 ''encoding'') st) = (Inr u, st1)"
    and up: "uploadStage w exportId ds ps sp st1 = (Inr url, st')"
    by (auto simp: subtitleStage_def split: prod.splits sum.splits)
  from runFFmpeg_files [OF r] have "set (files st1) \<subseteq> insert OutputMp4 (set (files st))"
    by simp
  with uploadStage_files [OF assms(1) up] show ?thesis by auto
qed

lemma concatStage_files:
  assumes "\<And>f. unlinkOk w f"
    and "concatStage w exportId exportData ds ps sp st = (Inr url, st')"
  shows "set (files st') \<subseteq> set (files st) - (downloadedFiles ds \<union> set ps
          \<union> {ConcatTxt, ConcatOutputMp4, OutputMp4} \<union> set_option sp)"
proof -
  from assms(2) obtain u1 st1 u2 st2 where
    wr: "writeFile w ConcatTxt st = (Inr u1, st1)"
    and r: "runFFmpeg w (ConcatArgs ConcatTxt ConcatOutputMp4) st1 = (Inr u2, st2)"
    and sub: "subtitleStage w exportId exportData ds ps sp st2 = (Inr url, st')"
    by (auto simp: concatStage_def split: prod.splits sum.splits)
  from writeFile_files [OF wr] runFFmpeg_files [OF r]
  have "set (files st2) \<subseteq> insert ConcatOutputMp4 (insert ConcatTxt (set (files st)))"
    by auto
  with subtitleStage_files [OF assms(1) sub] show ?thesis by auto
qed

lemma finishExport_files:
  assumes "\<And>f. unlinkOk w f"
    and "finishExport w exportId exportData ds ps st = (Inr url, st')"
  shows "set (files st') \<subseteq> set (files st) - (downloadedFiles ds \<union> set ps)"
proof (cases "wantsSubtitleFile exportData")
  case True
  with assms(2) obtain u st1 where
    wr: "writeFile w SubtitlesSrt (emit (ExportProgress 70 ''encoding'') st) = (Inr u, st1)"
    and c: "concatStage w exportId exportData ds ps (Some SubtitlesSrt) st1 = (Inr url, st')"
    by (auto simp: finishExport_def Let_def split: prod.splits sum.splits)
  from writeFile_files [OF wr] have "set (files st1) \<subseteq> insert SubtitlesSrt (set (files st))"
    by simp
  with concatStage_files [OF assms(1) c] show ?thesis by auto
next
  case False
  with assms(2)
  have c: "concatStage w exportId exportData ds ps None (emit (ExportProgress 70 ''encoding'') st)
             = (Inr url, st')"
    by (auto simp: finishExport_def Let_def)
  from concatStage_files [OF assms(1) c] show ?thesis by auto
qed

lemma successful_export_removes_scratch_files:
  assumes ok: "\<And>f. unlinkOk w f"
    and run: "exportRun w exportId exportData st0 = (SendSuccess eid url status isMock, st)"
  shows "set (files st) \<subseteq> set (files st0)"
proof -
  from run have "exportTry w exportId exportData st0 = (Inr url, st)"
    by (auto simp: exportRun_def split: prod.splits sum.splits)
  then obtain ds st1 ps st2 where
    dl: "downloadLoop w (length (ed_clips exportData)) (ed_clips exportData) 0 []
           (emit (ExportProgress 5 ''downloading'') st0) = (Inr ds, st1)"
    and pl: "processLoop w (ed_audioMix exportData) (length ds) ds 0 []
               (emit (ExportProgress 25 ''processing'') st1) = (Inr ps, st2)"
    and fin: "finishExport w exportId exportData ds ps st2 = (Inr url, st)"
    by (auto simp: exportTry_def split: prod.splits sum.splits)
  from downloadLoop_files [OF dl] have "set (files st1) \<subseteq> set (files st0) \<union> downloadedFiles ds"
    by simp
  moreover from processLoop_files [OF pl] have "set (files st2) \<subseteq> set (files st1) \<union> set ps"
    by simp
  moreover note finishExport_files [OF ok fin]
  ultimately show ?thesis by auto
qed

text \<open>
  On the path that answers \<open>sendError\<close> nothing is ever unlinked: every file that was
  there before the run or was created during it is still there.
\<close>

lemma writeFile_keeps: "writeFile w f st = (r, st') \<Longrightarrow> set (files st) \<subseteq> set (files st')"
  by (auto simp: writeFile_def split: option.splits)

lemma downloadFile_keeps: "downloadFile w url f st = (r, st') \<Longrightarrow> set (files st) \<subseteq> set (files st')"
  by (auto simp: downloadFile_def split: option.splits dest: writeFile_keeps)

lemma runFFmpeg_keeps: "runFFmpeg w args st = (r, st') \<Longrightarrow> set (files st) \<subseteq> set (files st')"
  by (auto simp: runFFmpeg_def split: option.splits)

lemma downloadLoop_keeps:
  "downloadLoop w n clips i acc st = (r, st') \<Longrightarrow> set (files st) \<subseteq> set (files st')"
proof (induction clips arbitrary: i acc st)
  case Nil
  then show ?case by auto
next
  case (Cons clip rest)
  let ?audioPath = "case ec_audioUrl clip of None \<Rightarrow> None
                    | Some u \<Rightarrow> if u \<noteq> [] then Some (VoiceoverFile i) else None"
  obtain r1 st1 where d1: "downloadFile w (ec_videoUrl clip) (VideoFile i) st = (r1, st1)"
    by fastforce
  obtain r2 st2 where d2:
    "(case ?audioPath of None \<Rightarrow> (Inr (), st1)
      | Some ap \<Rightarrow> downloadFile w (the (ec_audioUrl clip)) ap st1) = (r2, st2)"
    by fastforce
  from downloadFile_keeps [OF d1] have k1: "set (files st) \<subseteq> set (files st1)" .
  from d2 have k2: "set (files st1) \<subseteq> set (files st2)"
    by (cases ?audioPath) (auto dest: downloadFile_keeps)
  show ?case
  proof (cases r1)
    case (Inl e)
    with Cons.prems d1 have "st' = st1" by (simp add: Let_def)
    with k1 show ?thesis by simp
  next
    case (Inr u1)
    show ?thesis
    proof (cases r2)
      case (Inl e)
      with Cons.prems d1 d2 \<open>r1 = Inr u1\<close> have "st' = st2" by (simp add: Let_def)
      with k1 k2 show ?thesis by auto
    next
      case (Inr u2)
      with Cons.prems d1 d2 \<open>r1 = Inr u1\<close>
      have "downloadLoop w n rest (i + 1) (acc @ [(VideoFile i, ?audioPath, clip)])
               (emit (ExportProgress (5 + \<lfloor>toDouble (toDouble (real i / real n) * 15)\<rfloor>) ''downloading'') st2)
                = (r, st')"
        by (simp add: Let_def)
      from Cons.IH [OF this] k1 k2 show ?thesis by auto
    qed
  qed
qed

lemma processLoop_keeps:
  "processLoop w audioMix n ds i acc st = (r, st') \<Longrightarrow> set (files st) \<subseteq> set (files st')"
proof (induction ds arbitrary: i acc st)
  case Nil
  then show ?case by auto
next
  case (Cons d rest)
  obtain r1 st1 where d1: "runFFmpeg w (processArgs audioMix i d) st = (r1, st1)"
    by fastforce
  from runFFmpeg_keeps [OF d1] have k1: "set (files st) \<subseteq> set (files st1)" .
  show ?case
  proof (cases r1)
    case (Inl e)
    with Cons.prems d1 have "st' = st1" by simp
    with k1 show ?thesis by simp
  next
    case (Inr u1)
    with Cons.prems d1
    have "processLoop w audioMix n rest (i + 1) (acc @ [ProcessedFile i])
               (emit (ExportProgress (25 + \<lfloor>toDouble (toDouble (real i / real n) * 40)\<rfloor>) ''processing'') st1)
                = (r, st')"
      by simp
    from Cons.IH [OF this] k1 show ?thesis by auto
  qed
qed

lemma uploadStage_keeps:
  "uploadStage w exportId ds ps sp st = (Inl e, st') \<Longrightarrow> files st' = files st"
  by (auto simp: uploadStage_def Let_def split: option.splits sum.splits)

lemma subtitleStage_keeps:
  "subtitleStage w exportId exportData ds ps sp st = (Inl e, st') \<Longrightarrow>
     set (files st) \<subseteq> set (files st')"
  by (auto simp: subtitleStage_def split: prod.splits sum.splits
           dest!: runFFmpeg_keeps uploadStage_keeps)

lemma concatStage_keeps:
  "concatStage w exportId exportData ds ps sp st = (Inl e, st') \<Longrightarrow>
     set (files st) \<subseteq> set (files st')"
  by (auto simp: concatStage_def split: prod.splits sum.splits
           dest!: writeFile_keeps runFFmpeg_keeps subtitleStage_keeps)

lemma finishExport_keeps:
  "finishExport w exportId exportData ds ps st = (Inl e, st') \<Longrightarrow>
     set (files st) \<subseteq> set (files st')"
  by (auto simp: finishExport_def Let_def split: if_splits prod.splits sum.splits
           dest!: writeFile_keeps concatStage_keeps)

lemma failed_export_removes_nothing:
  assumes "exportRun w exportId exportData st0 = (SendError msg code, st)"
  shows "set (files st0) \<subseteq> set (files st)"
proof -
  from assms obtain e st' where t: "exportTry w exportId exportData st0 = (Inl e, st')"
    and st: "files st = files st'"
    by (auto simp: exportRun_def split: prod.splits sum.splits)
  obtain r1 st1 where
    dl: "downloadLoop w (length (ed_clips exportData)) (ed_clips exportData) 0 []
           (emit (ExportProgress 5 ''downloading'') st0) = (r1, st1)"
    by fastforce
  from downloadLoop_keeps [OF dl] have k1: "set (files st0) \<subseteq> set (files st1)" by simp
  show ?thesis
  proof (cases r1)
    case (Inl e1)
    with t dl have "st' = st1" by (simp add: exportTry_def)
    with k1 st show ?thesis by simp
  next
    case (Inr ds)
    obtain r2 st2 where
      pl: "processLoop w (ed_audioMix exportData) (length ds) ds 0 []
             (emit (ExportProgress 25 ''processing'') st1) = (r2, st2)"
      by fastforce
    from processLoop_keeps [OF pl] have k2: "set (files st1) \<subseteq> set (files st2)" by simp
    show ?thesis
    proof (cases r2)
      case (Inl e2)
      with t dl pl \<open>r1 = Inr ds\<close> have "st' = st2" by (simp add: exportTry_def)
      with k1 k2 st show ?thesis by auto
    next
      case (Inr ps)
      with t dl pl \<open>r1 = Inr ds\<close>
      have "finishExport w exportId exportData ds ps st2 = (Inl e, st')"
        by (simp add: exportTry_def)
      from finishExport_keeps [OF this] k1 k2 st show ?thesis by auto
    qed
  qed
qed

text \<open>
  Claim C6 says that every scratch file created during a run is removed before the
  run returns, whether it succeeds or fails. The cleanup block stands at the end of
  the \<open>try\<close> body; the \<open>catch\<close> block unlinks nothing. In the run of the two-clip
  request in which the narration of clip B cannot be downloaded, the handler answers
  \<open>sendError\<close> while \<open>video_0.mp4\<close>, \<open>voiceover_0.mp3\<close> and \<open>video_1.mp4\<close> are still
  in the work directory, although every \<open>unlink\<close> would succeed. The run in which
  nothing fails leaves no file.
\<close>

theorem failed_export_leaves_scratch_files:
  "exportVideoSchema exportAB
   \<and> fst (exportHandler False True worldNarrationBFails ''export-1'' exportAB emptySys)
       = SendError ''Failed to export video. Please try again.'' 500
   \<and> files (snd (exportHandler False True worldNarrationBFails ''export-1'' exportAB emptySys))
       = [VideoFile 1, VoiceoverFile 0, VideoFile 0]
   \<and> unlinkOk worldNarrationBFails (VideoFile 0)
   \<and> unlinkOk worldNarrationBFails (VoiceoverFile 0)
   \<and> unlinkOk worldNarrationBFails (VideoFile 1)
   \<and> fst (exportHandler False True worldOk ''export-1'' exportAB emptySys)
       = SendSuccess ''export-1'' ''https://storage.example/signed'' ''completed'' False
   \<and> files (snd (exportHandler False True worldOk ''export-1'' exportAB emptySys)) = []"
  by (simp add: run_defs input_defs double_eval exportVideoSchema_def)

subsection \<open>The audio mix\<close>

lemma toFixed2_near:
  assumes "0 \<le> x"
  shows "\<bar>toFixed2 x - x\<bar> \<le> 1 / 200"
proof -
  define z where "z = real_of_int \<lfloor>x * 100 + 1 / 2\<rfloor>"
  have "z \<le> x * 100 + 1 / 2" "x * 100 + 1 / 2 < z + 1"
    unfolding z_def by linarith+
  then have "\<bar>z / 100 - x\<bar> \<le> 1 / 200"
    by linarith
  moreover have "toFixed2 x = z / 100"
    using assms unfolding toFixed2_def z_def by auto
  ultimately show ?thesis by (simp only:)
qed

lemma toFixed2_round:
  assumes "0 \<le> x" and "\<bar>x - of_int k / 100\<bar> < 1 / 200"
  shows "toFixed2 x = of_int k / 100"
proof -
  have "of_int k \<le> x * 100 + 1 / 2" "x * 100 + 1 / 2 < of_int k + 1"
    using assms(2) by linarith+
  then have "\<lfloor>x * 100 + 1 / 2\<rfloor> = k"
    by linarith
  with assms(1) show ?thesis by (simp add: toFixed2_def)
qed

text \<open>
  \<open>toFixed(2)\<close> reads the double, not the decimal the request was written with: for
  the ratio 0.015 the difference \<open>1 - 0.015\<close> is the double just below 0.985 and is
  written 0.98; for 0.005 it is the double just below 0.995 and is written 0.99.
\<close>

lemma toFixed2_below_tie:
  "toFixed2 (toDouble (1 - toDouble (15 / 1000))) = 98 / 100"
  "toFixed2 (toDouble (1 - toDouble (5 / 1000))) = 99 / 100"
  "toFixed2 (toDouble (15 / 1000)) = 1 / 100"
  "toFixed2 (toDouble (5 / 1000)) = 1 / 100"
  by (simp_all add: toFixed2_def double_eval Let_def)

text \<open>
  Claim C8 says that with mix ratio \<open>r\<close> the native audio gets gain \<open>1 - r\<close> and the
  narration gain \<open>r\<close>. The gains are written into the filter with \<open>toFixed(2)\<close>: for
  \<open>r = 0.123\<close> the narration gain is 0.12 and the native gain 0.88, not 0.123 and
  0.877.
\<close>

theorem audio_mix_gains_counterexample:
  "exportVideoSchema (exportAB \<lparr> ed_audioMix := toDouble (123 / 1000) \<rparr>)
   \<and> processArgs (ed_audioMix (exportAB \<lparr> ed_audioMix := toDouble (123 / 1000) \<rparr>)) 0
        (VideoFile 0, Some (VoiceoverFile 0), exportClipA)
       = MixArgs 0 (VideoFile 0) (VoiceoverFile 0) 5 (22 / 25) (3 / 25) (ProcessedFile 0)
   \<and> (22 / 25 :: real) \<noteq> 1 - toDouble (123 / 1000)
   \<and> (22 / 25 :: real) \<noteq> toDouble (1 - toDouble (123 / 1000))
   \<and> (3 / 25 :: real) \<noteq> toDouble (123 / 1000)"
  by (simp add: exportVideoSchema_def exportAB_def exportClipA_def processArgs_def toFixed2_def
        double_eval Let_def)

text \<open>
  Claim C8, amended. For every request that passes the schema (\<open>0 \<le> r \<le> 1\<close>) and every
  clip with a narration file, whatever the clip and its index, the FFmpeg run mixes
  the native audio with gain \<open>(1 - r).toFixed(2)\<close> and the narration with gain
  \<open>r.toFixed(2)\<close>, where \<open>1 - r\<close> is the double nearest to the difference. The
  native gain is within 0.005 of that double, hence within \<open>1 / 200 + 1 / 2 ^ 54\<close> of the
  exact \<open>1 - r\<close>; the narration gain is within 0.005 of \<open>r\<close>. When \<open>r\<close> is the double
  nearest to \<open>k / 100\<close> for a whole number \<open>k\<close> of hundredths, the gains are exactly
  \<open>(100 - k) / 100\<close> and \<open>k / 100\<close>; in particular \<open>r = 0\<close> gives gains 1 and 0, and
  \<open>r = 1\<close> gives gains 0 and 1.
\<close>

theorem audio_mix_gains:
  assumes "exportVideoSchema exportData"
  shows "processArgs (ed_audioMix exportData) i (videoPath, Some audioPath, clip)
           = MixArgs (ec_trimStart clip) videoPath audioPath
               (toDouble (toDouble (ec_duration clip - ec_trimStart clip) - ec_trimEnd clip))
               (toFixed2 (toDouble (1 - ed_audioMix exportData)))
               (toFixed2 (ed_audioMix exportData))
               (ProcessedFile i)
       \<and> \<bar>toFixed2 (toDouble (1 - ed_audioMix exportData))
            - toDouble (1 - ed_audioMix exportData)\<bar> \<le> 1 / 200
       \<and> \<bar>toFixed2 (toDouble (1 - ed_audioMix exportData))
            - (1 - ed_audioMix exportData)\<bar> \<le> 1 / 200 + 1 / 2 ^ 54
       \<and> \<bar>toFixed2 (ed_audioMix exportData) - ed_audioMix exportData\<bar> \<le> 1 / 200
       \<and> (k \<le> 100 \<and> ed_audioMix exportData = toDouble (real k / 100) \<longrightarrow>
            toFixed2 (toDouble (1 - ed_audioMix exportData)) = real (100 - k) / 100
          \<and> toFixed2 (ed_audioMix exportData) = real k / 100)
       \<and> (ed_audioMix exportData = 0 \<longrightarrow>
            toFixed2 (toDouble (1 - ed_audioMix exportData)) = 1
          \<and> toFixed2 (ed_audioMix exportData) = 0)
       \<and> (ed_audioMix exportData = 1 \<longrightarrow>
            toFixed2 (toDouble (1 - ed_audioMix exportData)) = 0
          \<and> toFixed2 (ed_audioMix exportData) = 1)"
proof -
  let ?r = "ed_audioMix exportData"
  let ?d = "toDouble (1 - ?r)"
  from assms have r: "0 \<le> ?r" "0 \<le> 1 - ?r" "1 - ?r \<le> 1"
    by (simp_all add: exportVideoSchema_def)
  have d: "0 \<le> ?d"
    using r(2) by (rule toDouble_nonneg)
  have dn: "\<bar>?d - (1 - ?r)\<bar> \<le> 1 / 2 ^ 54"
    using r(2) r(3) by (rule toDouble_near_unit)
  have args: "processArgs ?r i (videoPath, Some audioPath, clip)
           = MixArgs (ec_trimStart clip) videoPath audioPath
               (toDouble (toDouble (ec_duration clip - ec_trimStart clip) - ec_trimEnd clip))
               (toFixed2 ?d) (toFixed2 ?r) (ProcessedFile i)"
    using r(1) d by (simp add: processArgs_def Let_def max_def)
  have n1: "\<bar>toFixed2 ?d - ?d\<bar> \<le> 1 / 200"
    using d by (rule toFixed2_near)
  have n2: "\<bar>toFixed2 ?d - (1 - ?r)\<bar> \<le> 1 / 200 + 1 / 2 ^ 54"
    using n1 dn by linarith
  have n3: "\<bar>toFixed2 ?r - ?r\<bar> \<le> 1 / 200"
    using r(1) by (rule toFixed2_near)
  have small: "(1 :: real) / 2 ^ 54 + 1 / 2 ^ 54 < 1 / 200"
    by simp
  have hundredths: "k \<le> 100 \<and> ?r = toDouble (real k / 100) \<longrightarrow>
            toFixed2 ?d = real (100 - k) / 100 \<and> toFixed2 ?r = real k / 100"
  proof (rule impI)
    assume a: "k \<le> 100 \<and> ?r = toDouble (real k / 100)"
    then have k: "0 \<le> real k / 100" "real k / 100 \<le> 1"
      by simp_all
    from k have "\<bar>toDouble (real k / 100) - real k / 100\<bar> \<le> 1 / 2 ^ 54"
      by (rule toDouble_near_unit)
    with a have rk: "\<bar>?r - real k / 100\<bar> \<le> 1 / 2 ^ 54"
      by simp
    have c: "real (100 - k) / 100 = 1 - real k / 100"
      using a by (simp add: of_nat_diff field_simps)
    from rk dn have "\<bar>?d - real (100 - k) / 100\<bar> \<le> 1 / 2 ^ 54 + 1 / 2 ^ 54"
      unfolding c by linarith
    with small have "\<bar>?d - of_int (int (100 - k)) / 100\<bar> < 1 / 200"
      by simp
    with d have g1: "toFixed2 ?d = of_int (int (100 - k)) / 100"
      by (rule toFixed2_round)
    from rk small have "\<bar>?r - of_int (int k) / 100\<bar> < 1 / 200"
      by simp
    with r(1) have g2: "toFixed2 ?r = of_int (int k) / 100"
      by (rule toFixed2_round)
    from g1 g2 show "toFixed2 ?d = real (100 - k) / 100 \<and> toFixed2 ?r = real k / 100"
      by simp
  qed
  have zero: "?r = 0 \<longrightarrow> toFixed2 ?d = 1 \<and> toFixed2 ?r = 0"
    by (simp add: toFixed2_def)
  have one: "?r = 1 \<longrightarrow> toFixed2 ?d = 0 \<and> toFixed2 ?r = 1"
    by (simp add: toFixed2_def)
  from args n1 n2 n3 hundredths zero one show ?thesis by blast
qed

text \<open>
  Claim C8, amended, at concrete requests: the two-clip request with \<open>r = 0.8\<close>, for
  which the gains are 0.2 and 0.8, and the same request with \<open>r = 0\<close> (gains 1 and 0)
  and with \<open>r = 1\<close> (gains 0 and 1).
\<close>

theorem audio_mix_gains_witness:
  "exportVideoSchema exportAB \<and> ed_audioMix exportAB = toDouble (real 80 / 100)
   \<and> processArgs (ed_audioMix exportAB) 0 (VideoFile 0, Some (VoiceoverFile 0), exportClipA)
       = MixArgs 0 (VideoFile 0) (VoiceoverFile 0) 5 (1 / 5) (4 / 5) (ProcessedFile 0)
   \<and> exportVideoSchema (exportAB \<lparr> ed_audioMix := 0 \<rparr>)
   \<and> processArgs (ed_audioMix (exportAB \<lparr> ed_audioMix := 0 \<rparr>)) 1
        (VideoFile 1, Some (VoiceoverFile 1), exportClipB)
       = MixArgs 0 (VideoFile 1) (VoiceoverFile 1) 3 1 0 (ProcessedFile 1)
   \<and> exportVideoSchema (exportAB \<lparr> ed_audioMix := 1 \<rparr>)
   \<and> processArgs (ed_audioMix (exportAB \<lparr> ed_audioMix := 1 \<rparr>)) 1
        (VideoFile 1, Some (VoiceoverFile 1), exportClipB)
       = MixArgs 0 (VideoFile 1) (VoiceoverFile 1) 3 0 1 (ProcessedFile 1)"
proof -
  have s: "exportVideoSchema exportAB"
    "exportVideoSchema (exportAB \<lparr> ed_audioMix := 0 \<rparr>)"
    "exportVideoSchema (exportAB \<lparr> ed_audioMix := 1 \<rparr>)"
    by (simp_all add: exportVideoSchema_def exportAB_def double_eval)
  have i: "(80 :: nat) \<le> 100" "ed_audioMix exportAB = toDouble (real 80 / 100)"
    by (simp_all add: exportAB_def)
  have e: "toDouble (toDouble (ec_duration exportClipA - ec_trimStart exportClipA)
              - ec_trimEnd exportClipA) = 5"
    "toDouble (toDouble (ec_duration exportClipB - ec_trimStart exportClipB)
              - ec_trimEnd exportClipB) = 3"
    "ec_trimStart exportClipA = 0" "ec_trimStart exportClipB = 0"
    by (simp_all add: exportClipA_def exportClipB_def double_eval)
  have g: "toFixed2 (toDouble (1 - ed_audioMix exportAB)) = real (100 - 80) / 100
          \<and> toFixed2 (ed_audioMix exportAB) = real 80 / 100"
    using audio_mix_gains [OF s(1), of 0 "VideoFile 0" "VoiceoverFile 0" exportClipA 80] i
    by blast
  have a: "processArgs (ed_audioMix exportAB) 0 (VideoFile 0, Some (VoiceoverFile 0), exportClipA)
       = MixArgs 0 (VideoFile 0) (VoiceoverFile 0) 5 (1 / 5) (4 / 5) (ProcessedFile 0)"
    using audio_mix_gains [OF s(1), of 0 "VideoFile 0" "VoiceoverFile 0" exportClipA 80] g e
    by simp
  have z: "ed_audioMix (exportAB \<lparr> ed_audioMix := 0 \<rparr>) = 0"
    "ed_audioMix (exportAB \<lparr> ed_audioMix := 1 \<rparr>) = 1"
    by simp_all
  have gb: "toFixed2 (toDouble (1 - ed_audioMix (exportAB \<lparr> ed_audioMix := 0 \<rparr>))) = 1
          \<and> toFixed2 (ed_audioMix (exportAB \<lparr> ed_audioMix := 0 \<rparr>)) = 0"
    using audio_mix_gains [OF s(2), of 1 "VideoFile 1" "VoiceoverFile 1" exportClipB 0] z(1)
    by blast
  have b: "processArgs (ed_audioMix (exportAB \<lparr> ed_audioMix := 0 \<rparr>)) 1
        (VideoFile 1, Some (VoiceoverFile 1), exportClipB)
       = MixArgs 0 (VideoFile 1) (VoiceoverFile 1) 3 1 0 (ProcessedFile 1)"
    using audio_mix_gains [OF s(2), of 1 "VideoFile 1" "VoiceoverFile 1" exportClipB 0] gb e
    by simp
  have gc: "toFixed2 (toDouble (1 - ed_audioMix (exportAB \<lparr> ed_audioMix := 1 \<rparr>))) = 0
          \<and> toFixed2 (ed_audioMix (exportAB \<lparr> ed_audioMix := 1 \<rparr>)) = 1"
    using audio_mix_gains [OF s(3), of 1 "VideoFile 1" "VoiceoverFile 1" exportClipB 0] z(2)
    by blast
  have c: "processArgs (ed_audioMix (exportAB \<lparr> ed_audioMix := 1 \<rparr>)) 1
        (VideoFile 1, Some (VoiceoverFile 1), exportClipB)
       = MixArgs 0 (VideoFile 1) (VoiceoverFile 1) 3 0 1 (ProcessedFile 1)"
    using audio_mix_gains [OF s(3), of 1 "VideoFile 1" "VoiceoverFile 1" exportClipB 0] gc e
    by simp
  from s i(2) a b c show ?thesis by blast
qed

end
